theory Spec2Isabelle
  imports Complex_Main "HOL-Library.AList" "HOL-Library.Sublist"
begin

section \<open>Errors and scalar loss values\<close>

text \<open>
  The Python exceptions the criterion can raise. Every \<open>assert\<close>, missing dictionary key,
  out-of-range index and failing tensor operation of the source is a branch returning
  \<open>Inl\<close> of one of these.
\<close>

datatype error =
  AssertionError | KeyError | IndexError | ZeroDivisionError | RuntimeError | ValueError

definition err_bind :: "error + 'a \<Rightarrow> ('a \<Rightarrow> error + 'b) \<Rightarrow> error + 'b" where
  "err_bind m f = (case m of Inl e \<Rightarrow> Inl e | Inr x \<Rightarrow> f x)"

section \<open>Denoising index adapter: \<open>get_cdn_matched_indices\<close>\<close>

text \<open>
  \<open>dn_meta\<close> is a Python dict. The adapter only looks keys up, so the record holds, for each
  key it reads, either the value (\<open>None\<close> when the key is missing) or, where only the lookup
  matters and the value is never used for the result, whether the key is present.
  A target is represented by its \<open>labels\<close> tensor; the adapter reads only its length.
  Counts and indices are natural numbers.
\<close>

record dn_meta =
  map_known_indice :: bool
  has_batch_idx :: bool
  has_known_lbs_bboxes :: bool
  has_known_indice :: bool
  scalar :: "nat option"
  pad_size :: "nat option"
  dn_positive_idx :: "nat list list option"
  dn_num_group :: "nat option"

definition arange :: "nat \<Rightarrow> nat list" where
  "arange n = [0..<n]"

text \<open>\<open>t.tile(G)\<close> on a one-dimensional tensor: \<open>G\<close> copies, one after the other.\<close>

definition tile :: "nat \<Rightarrow> 'a list \<Rightarrow> 'a list" where
  "tile G xs = concat (replicate G xs)"

text \<open>\<open>t.unsqueeze(0).repeat(scalar, 1)\<close>: a matrix of \<open>scalar\<close> rows, each a copy of \<open>t\<close>.\<close>

definition repeat_rows :: "nat \<Rightarrow> 'a list \<Rightarrow> 'a list list" where
  "repeat_rows S t = replicate S t"

definition flatten :: "'a list list \<Rightarrow> 'a list" where
  "flatten rows = concat rows"

text \<open>
  \<open>(torch.tensor(range(scalar)) * single_pad).unsqueeze(1) + t\<close>: the column of group
  offsets is broadcast along the rows of \<open>t\<close>.
\<close>

definition group_offsets :: "nat \<Rightarrow> nat \<Rightarrow> nat list" where
  "group_offsets S single_pad = map (\<lambda>g. g * single_pad) [0..<S]"

definition add_column :: "nat list \<Rightarrow> nat list list \<Rightarrow> nat list list" where
  "add_column col t = map (\<lambda>(c, row). map (\<lambda>x. c + x) row) (zip col t)"

text \<open>The body of the loop of the map-known-indice scheme, for one image.\<close>

definition cdn_map_known_image :: "nat \<Rightarrow> nat \<Rightarrow> nat list \<Rightarrow> nat list \<times> nat list" where
  "cdn_map_known_image S single_pad labels =
     (if length labels > 0 then
        (let t = repeat_rows S (arange (length labels));
             tgt_idx = flatten t;
             output_idx = flatten (add_column (group_offsets S single_pad) t)
         in (output_idx, tgt_idx))
      else ([], []))"

text \<open>
  The loop of the legacy scheme over \<open>enumerate(num_gts)\<close>. \<open>dn_positive_idx[i]\<close> is read
  only for an image with ground truths, and raises IndexError past the end of the list;
  the \<open>assert\<close> compares its length with the tiled ground-truth indices.
\<close>

fun cdn_legacy_loop ::
  "nat list list \<Rightarrow> nat \<Rightarrow> (nat \<times> nat) list \<Rightarrow> error + (nat list \<times> nat list) list" where
  "cdn_legacy_loop dn_pos G [] = Inr []"
| "cdn_legacy_loop dn_pos G ((i, num_gt) # rest) =
     (if num_gt > 0 then
        (let gt_idx = tile G (arange num_gt) in
         if \<not> i < length dn_pos then Inl IndexError
         else if length (dn_pos ! i) \<noteq> length gt_idx then Inl AssertionError
         else err_bind (cdn_legacy_loop dn_pos G rest)
                (\<lambda>r. Inr ((dn_pos ! i, gt_idx) # r)))
      else err_bind (cdn_legacy_loop dn_pos G rest) (\<lambda>r. Inr (([], []) # r)))"

definition get_cdn_matched_indices ::
  "dn_meta \<Rightarrow> nat list list \<Rightarrow> error + (nat list \<times> nat list) list" where
  "get_cdn_matched_indices meta targets =
     (if map_known_indice meta then
        (if \<not> has_batch_idx meta then Inl KeyError
         else if \<not> has_known_lbs_bboxes meta then Inl KeyError
         else if \<not> has_known_indice meta then Inl KeyError
         else case scalar meta of None \<Rightarrow> Inl KeyError | Some S \<Rightarrow>
           (case pad_size meta of None \<Rightarrow> Inl KeyError | Some pad \<Rightarrow>
             (if S = 0 then Inl ZeroDivisionError
              else if pad mod S \<noteq> 0 then Inl AssertionError
              else (let single_pad = pad div S
                    in Inr (map (cdn_map_known_image S single_pad) targets)))))
      else
        (case dn_positive_idx meta of None \<Rightarrow> Inl KeyError | Some dn_pos \<Rightarrow>
          (case dn_num_group meta of None \<Rightarrow> Inl KeyError | Some G \<Rightarrow>
            (let num_gts = map length targets in
             if targets = [] then Inl IndexError
             else cdn_legacy_loop dn_pos G (enumerate 0 num_gts)))))"

text \<open>Concrete denoising metadata used to exercise the adapter.\<close>

definition legacy_meta_example :: dn_meta where
  "legacy_meta_example = \<lparr>map_known_indice = False, has_batch_idx = False,
     has_known_lbs_bboxes = False, has_known_indice = False, scalar = None, pad_size = None,
     dn_positive_idx = Some [[0, 1, 4, 5, 8, 9], []], dn_num_group = Some 3\<rparr>"

definition map_known_meta_example :: "nat \<Rightarrow> dn_meta" where
  "map_known_meta_example pad = \<lparr>map_known_indice = True, has_batch_idx = True,
     has_known_lbs_bboxes = True, has_known_indice = True, scalar = Some 3, pad_size = Some pad,
     dn_positive_idx = None, dn_num_group = None\<rparr>"

section \<open>Criterion orchestrator: \<open>RTDETRCriterion.forward\<close>\<close>

text \<open>
  A loss value is a zero-dimensional tensor: a finite number, or one of the three values
  that \<open>torch.isfinite\<close> rejects. Finite values and the configured weights (Python numbers)
  are real numbers here.
\<close>

datatype fval = Fin real | PosInf | NegInf | NaN

fun isfinite :: "fval \<Rightarrow> bool" where
  "isfinite (Fin x) = True"
| "isfinite PosInf = False"
| "isfinite NegInf = False"
| "isfinite NaN = False"

text \<open>\<open>torch.nan_to_num(v, nan=a, posinf=b, neginf=c)\<close>.\<close>

fun nan_to_num :: "fval \<Rightarrow> real \<Rightarrow> real \<Rightarrow> real \<Rightarrow> fval" where
  "nan_to_num (Fin x) a b c = Fin x"
| "nan_to_num NaN a b c = Fin a"
| "nan_to_num PosInf a b c = Fin b"
| "nan_to_num NegInf a b c = Fin c"

text \<open>\<open>v * w\<close> for a tensor \<open>v\<close> and a Python number \<open>w\<close>.\<close>

fun fmul :: "fval \<Rightarrow> real \<Rightarrow> fval" where
  "fmul (Fin x) w = Fin (x * w)"
| "fmul NaN w = NaN"
| "fmul PosInf w = (if w > 0 then PosInf else if w < 0 then NegInf else NaN)"
| "fmul NegInf w = (if w > 0 then NegInf else if w < 0 then PosInf else NaN)"

text \<open>
  The fields of the criterion object that \<open>forward\<close> and the loss functions read
  (the matcher is an external collaborator and has no field here).
\<close>

record criterion =
  weight_dict :: "string \<rightharpoonup> real"
  losses :: "string list"
  num_classes :: nat
  alpha :: real
  gamma :: real
  eos_coef :: real
  num_points :: nat
  oversample_ratio :: real
  importance_sample_ratio :: real

text \<open>
  An output dictionary of the model (the final layer's, an auxiliary layer's or a
  denoising one's), as far as the orchestrator inspects it: which prediction keys it holds.
\<close>

record output_keys =
  has_pred_logits :: bool
  has_pred_boxes :: bool
  has_pred_masks :: bool

text \<open>
  The six loss functions, seen from the orchestrator: the key checks they start with and
  the names under which they return their values. The values themselves come out of tensor
  arithmetic (and, for the mask loss, random draws); \<open>vals\<close> stands for what one call
  computes, and may be any value, finite or not.
\<close>

definition loss_labels_dict ::
  "'a output_keys_scheme \<Rightarrow> (string \<Rightarrow> fval) \<Rightarrow> bool \<Rightarrow> error + (string \<times> fval) list" where
  "loss_labels_dict outputs vals do_log =
     (if \<not> has_pred_logits outputs then Inl AssertionError
      else Inr ([(''loss_ce'', vals ''loss_ce'')] @
                (if do_log then [(''class_error'', vals ''class_error'')] else [])))"

definition loss_labels_focal_dict ::
  "'a output_keys_scheme \<Rightarrow> (string \<Rightarrow> fval) \<Rightarrow> error + (string \<times> fval) list" where
  "loss_labels_focal_dict outputs vals =
     (if \<not> has_pred_logits outputs then Inl AssertionError
      else Inr [(''loss_focal'', vals ''loss_focal'')])"

definition loss_labels_vfl_dict ::
  "'a output_keys_scheme \<Rightarrow> (string \<Rightarrow> fval) \<Rightarrow> error + (string \<times> fval) list" where
  "loss_labels_vfl_dict outputs vals =
     (if \<not> has_pred_boxes outputs then Inl AssertionError
      else if \<not> has_pred_logits outputs then Inl KeyError
      else Inr [(''loss_vfl'', vals ''loss_vfl'')])"

definition loss_cardinality_dict ::
  "'a output_keys_scheme \<Rightarrow> (string \<Rightarrow> fval) \<Rightarrow> error + (string \<times> fval) list" where
  "loss_cardinality_dict outputs vals =
     (if \<not> has_pred_logits outputs then Inl KeyError
      else Inr [(''cardinality_error'', vals ''cardinality_error'')])"

definition loss_boxes_dict ::
  "'a output_keys_scheme \<Rightarrow> (string \<Rightarrow> fval) \<Rightarrow> error + (string \<times> fval) list" where
  "loss_boxes_dict outputs vals =
     (if \<not> has_pred_boxes outputs then Inl AssertionError
      else Inr [(''loss_bbox'', vals ''loss_bbox''), (''loss_giou'', vals ''loss_giou'')])"

definition loss_masks_dict ::
  "'a output_keys_scheme \<Rightarrow> (string \<Rightarrow> fval) \<Rightarrow> error + (string \<times> fval) list" where
  "loss_masks_dict outputs vals =
     (if \<not> has_pred_masks outputs then Inl AssertionError
      else Inr [(''loss_mask_bce'', vals ''loss_mask_bce''),
                (''loss_mask_dice'', vals ''loss_mask_dice'')])"

text \<open>
  \<open>get_loss\<close>: dispatch on the name through \<open>loss_map\<close>; a name that is not a key of the
  table fails the assertion. \<open>log\<close> is the keyword argument that \<open>forward\<close> passes only
  with the name \<open>labels\<close>.
\<close>

definition get_loss ::
  "string \<Rightarrow> 'a output_keys_scheme \<Rightarrow> (string \<Rightarrow> fval) \<Rightarrow> bool \<Rightarrow> error + (string \<times> fval) list"
  where
  "get_loss loss outputs vals do_log =
     (if loss = ''labels'' then loss_labels_dict outputs vals do_log
      else if loss = ''boxes'' then loss_boxes_dict outputs vals
      else if loss = ''cardinality'' then loss_cardinality_dict outputs vals
      else if loss = ''focal'' then loss_labels_focal_dict outputs vals
      else if loss = ''vfl'' then loss_labels_vfl_dict outputs vals
      else if loss = ''masks'' then loss_masks_dict outputs vals
      else Inl AssertionError)"

text \<open>
  The stabilisation step: every value that is not finite is replaced, through
  \<open>nan_to_num\<close>, by ten times the weight of its name (\<open>weight_dict.get(k, 1.0)\<close>),
  negated for negative infinity. The warning it prints is not modelled.
\<close>

definition stabilize_value :: "(string \<rightharpoonup> real) \<Rightarrow> string \<Rightarrow> fval \<Rightarrow> fval" where
  "stabilize_value wd k v =
     (if \<not> isfinite v then
        (let weight = (case wd k of None \<Rightarrow> 1 | Some w \<Rightarrow> w);
             replacement_val = 10 * weight
         in nan_to_num v replacement_val replacement_val (- replacement_val))
      else v)"

definition stabilize :: "(string \<rightharpoonup> real) \<Rightarrow> (string \<times> fval) list \<Rightarrow> (string \<times> fval) list" where
  "stabilize wd l_dict = map (\<lambda>(k, v). (k, stabilize_value wd k v)) l_dict"

text \<open>\<open>{k: l_dict[k] * weight_dict[k] for k in l_dict if k in weight_dict}\<close>\<close>

definition apply_weights :: "(string \<rightharpoonup> real) \<Rightarrow> (string \<times> fval) list \<Rightarrow> (string \<times> fval) list" where
  "apply_weights wd l_dict =
     concat (map (\<lambda>(k, v). case wd k of None \<Rightarrow> [] | Some w \<Rightarrow> [(k, fmul v w)]) l_dict)"

text \<open>\<open>{k + suffix: v for k, v in l_dict.items()}\<close>\<close>

definition add_suffix :: "string \<Rightarrow> (string \<times> fval) list \<Rightarrow> (string \<times> fval) list" where
  "add_suffix sfx l_dict = map (\<lambda>(k, v). (k @ sfx, v)) l_dict"

text \<open>\<open>losses.update(l_dict)\<close>\<close>

definition dict_update :: "(string \<times> fval) list \<Rightarrow> (string \<times> fval) list \<Rightarrow> (string \<times> fval) list" where
  "dict_update acc l_dict = fold (\<lambda>(k, v). AList.update k v) l_dict acc"

text \<open>Decimal rendering of a list position inside an f-string.\<close>

definition digit_char :: "nat \<Rightarrow> char" where
  "digit_char d = char_of (48 + d)"

function str_nat :: "nat \<Rightarrow> string" where
  "str_nat n = (if n < 10 then [digit_char n] else str_nat (n div 10) @ [digit_char (n mod 10)])"
  by pat_completeness auto
termination
  by (relation "measure id") auto

declare str_nat.simps [simp del]

text \<open>
  The four places where \<open>forward\<close> computes losses; \<open>lossval stage j\<close> are the values
  computed by the \<open>j\<close>-th requested loss at that place.
\<close>

datatype stage = Main | Aux nat | Dn | DnAux nat

text \<open>
  The loop over \<open>self.losses\<close>, which \<open>forward\<close> repeats at each place. It differs between
  the places in three ways only: whether a \<open>masks\<close> request is skipped when the outputs hold
  no \<open>pred_masks\<close> (everywhere but on the final layer), the \<open>log\<close> argument given to
  \<open>labels\<close> (\<open>False\<close> on auxiliary layers), and the suffix put on the keys (none on the
  final layer). The first error ends the call.
\<close>

fun loss_loop ::
  "(string \<rightharpoonup> real) \<Rightarrow> (nat \<Rightarrow> string \<Rightarrow> fval) \<Rightarrow> 'a output_keys_scheme \<Rightarrow> bool \<Rightarrow> bool \<Rightarrow>
   string \<Rightarrow> (nat \<times> string) list \<Rightarrow> (string \<times> fval) list \<Rightarrow> error + (string \<times> fval) list" where
  "loss_loop wd vals outputs skip do_log sfx [] acc = Inr acc"
| "loss_loop wd vals outputs skip do_log sfx ((j, loss) # rest) acc =
     (if skip \<and> loss = ''masks'' \<and> \<not> has_pred_masks outputs
      then loss_loop wd vals outputs skip do_log sfx rest acc
      else
        (case get_loss loss outputs (vals j) (if loss = ''labels'' then do_log else True) of
           Inl e \<Rightarrow> Inl e
         | Inr l_dict \<Rightarrow>
             loss_loop wd vals outputs skip do_log sfx rest
               (dict_update acc (add_suffix sfx (apply_weights wd (stabilize wd l_dict))))))"

text \<open>The loop over \<open>enumerate(outputs['aux_outputs'])\<close>.\<close>

fun aux_loop ::
  "criterion \<Rightarrow> (stage \<Rightarrow> nat \<Rightarrow> string \<Rightarrow> fval) \<Rightarrow> (nat \<times> output_keys) list \<Rightarrow>
   (string \<times> fval) list \<Rightarrow> error + (string \<times> fval) list" where
  "aux_loop self lossval [] acc = Inr acc"
| "aux_loop self lossval ((i, aux_outputs) # rest) acc =
     err_bind
       (loss_loop (weight_dict self) (lossval (Aux i)) aux_outputs True False
          (''_aux_'' @ str_nat i) (enumerate 0 (losses self)) acc)
       (aux_loop self lossval rest)"

text \<open>The loop over \<open>enumerate(dn_outputs['aux_outputs'])\<close>.\<close>

fun dn_aux_loop ::
  "criterion \<Rightarrow> (stage \<Rightarrow> nat \<Rightarrow> string \<Rightarrow> fval) \<Rightarrow> (nat \<times> output_keys) list \<Rightarrow>
   (string \<times> fval) list \<Rightarrow> error + (string \<times> fval) list" where
  "dn_aux_loop self lossval [] acc = Inr acc"
| "dn_aux_loop self lossval ((i, aux) # rest) acc =
     err_bind
       (loss_loop (weight_dict self) (lossval (DnAux i)) aux True True
          (''_dn_'' @ str_nat i) (enumerate 0 (losses self)) acc)
       (dn_aux_loop self lossval rest)"

text \<open>
  The model's output dictionary: the final layer's prediction keys, and the optional
  entries \<open>aux_outputs\<close>, \<open>dn_aux_outputs\<close> (with its own optional \<open>aux_outputs\<close>) and
  \<open>dn_meta\<close>.
\<close>

record dn_outputs = output_keys +
  dn_aux_list :: "output_keys list option"

record model_outputs = output_keys +
  aux_outputs :: "output_keys list option"
  dn_aux_outputs :: "dn_outputs option"
  dn_meta_entry :: "dn_meta option"

text \<open>
  \<open>forward\<close>. The normaliser and the matcher's assignments only enter the computed values,
  which \<open>lossval\<close> supplies; the matcher is an external collaborator. The denoising part
  reads \<open>outputs['dn_meta']\<close> (KeyError when missing) and derives its assignment with
  \<open>get_cdn_matched_indices\<close>, whose errors end the call.
\<close>

definition forward ::
  "criterion \<Rightarrow> (stage \<Rightarrow> nat \<Rightarrow> string \<Rightarrow> fval) \<Rightarrow> model_outputs \<Rightarrow> nat list list \<Rightarrow>
   error + (string \<times> fval) list" where
  "forward self lossval outputs targets =
     err_bind
       (loss_loop (weight_dict self) (lossval Main) outputs False True []
          (enumerate 0 (losses self)) [])
       (\<lambda>acc1.
     err_bind
       (case aux_outputs outputs of
          None \<Rightarrow> Inr acc1
        | Some auxs \<Rightarrow> aux_loop self lossval (enumerate 0 auxs) acc1)
       (\<lambda>acc2.
     case dn_aux_outputs outputs of
       None \<Rightarrow> Inr acc2
     | Some dn_outs \<Rightarrow>
         (case dn_meta_entry outputs of
            None \<Rightarrow> Inl KeyError
          | Some meta \<Rightarrow>
              err_bind (get_cdn_matched_indices meta targets)
                (\<lambda>dn_indices.
              err_bind
                (loss_loop (weight_dict self) (lossval Dn) dn_outs True True ''_dn''
                   (enumerate 0 (losses self)) acc2)
                (\<lambda>acc3.
              case dn_aux_list dn_outs of
                None \<Rightarrow> Inr acc3
              | Some dn_auxs \<Rightarrow> dn_aux_loop self lossval (enumerate 0 dn_auxs) acc3)))))"

section \<open>Arithmetic on loss tensors\<close>

text \<open>
  Division, addition and subtraction as the tensor library performs them on values that
  may be infinite or NaN: dividing by zero raises nothing and yields an infinity or NaN,
  and the sum of an empty tensor is 0. Finite values are real numbers, so rounding and
  overflow of finite operands are not represented.
\<close>

definition tdiv :: "real \<Rightarrow> real \<Rightarrow> fval" where
  "tdiv x y = (if y = 0 then (if x > 0 then PosInf else if x < 0 then NegInf else NaN)
               else Fin (x / y))"

fun fdiv :: "fval \<Rightarrow> real \<Rightarrow> fval" where
  "fdiv (Fin x) y = tdiv x y"
| "fdiv NaN y = NaN"
| "fdiv PosInf y = (if y < 0 then NegInf else PosInf)"
| "fdiv NegInf y = (if y < 0 then PosInf else NegInf)"

fun fadd :: "fval \<Rightarrow> fval \<Rightarrow> fval" where
  "fadd (Fin x) (Fin y) = Fin (x + y)"
| "fadd NaN v = NaN"
| "fadd v NaN = NaN"
| "fadd PosInf NegInf = NaN"
| "fadd NegInf PosInf = NaN"
| "fadd PosInf v = PosInf"
| "fadd v PosInf = PosInf"
| "fadd NegInf v = NegInf"
| "fadd v NegInf = NegInf"

fun fneg :: "fval \<Rightarrow> fval" where
  "fneg (Fin x) = Fin (- x)"
| "fneg NaN = NaN"
| "fneg PosInf = NegInf"
| "fneg NegInf = PosInf"

definition fsum :: "fval list \<Rightarrow> fval" where
  "fsum vs = foldl fadd (Fin 0) vs"

definition sigmoid :: "real \<Rightarrow> real" where
  "sigmoid x = 1 / (1 + exp (- x))"

section \<open>Mask loss: \<open>dice_loss\<close>\<close>

text \<open>
  \<open>inputs\<close> and \<open>targets\<close> are matrices, one row per matched pair and one column per
  sampled point, as \<open>loss_masks\<close> passes them. The docstring requires equal shapes; the
  elementwise product fails on rows of different lengths, and shapes that differ but
  broadcast are not modelled. Each line of the source is one definition.
\<close>

definition same_shape :: "'a list list \<Rightarrow> 'b list list \<Rightarrow> bool" where
  "same_shape xs ys \<longleftrightarrow> map length xs = map length ys"

definition dice_numerator :: "real list list \<Rightarrow> real list list \<Rightarrow> real list" where
  "dice_numerator inputs targets =
     map (\<lambda>(i, t). 2 * sum_list (map (\<lambda>(a, b). a * b) (zip i t))) (zip inputs targets)"

definition dice_denominator :: "real list list \<Rightarrow> real list list \<Rightarrow> real list" where
  "dice_denominator inputs targets =
     map (\<lambda>(i, t). sum_list i + sum_list t) (zip inputs targets)"

definition dice_per_pair :: "real list list \<Rightarrow> real list list \<Rightarrow> fval list" where
  "dice_per_pair inputs targets =
     map (\<lambda>(numerator, denominator). fadd (Fin 1) (fneg (tdiv (numerator + 1) (denominator + 1))))
       (zip (dice_numerator inputs targets) (dice_denominator inputs targets))"

definition dice_loss :: "real list list \<Rightarrow> real list list \<Rightarrow> real \<Rightarrow> error + fval" where
  "dice_loss inputs0 targets num_masks =
     (let inputs = map (map sigmoid) inputs0 in
      if \<not> same_shape inputs targets then Inl RuntimeError
      else Inr (fdiv (fsum (dice_per_pair inputs targets)) num_masks))"

section \<open>Classification losses\<close>

text \<open>
  A batch of class logits is a list (images) of lists (prediction slots) of rows (classes);
  a target is its \<open>labels\<close> tensor; an assignment is one pair of index tensors per image,
  (prediction slots, target positions). Labels and indices are natural numbers.
\<close>

record outputs =
  pred_logits :: "real list list list option"

text \<open>\<open>torch.cat\<close> of an empty list of tensors raises.\<close>

definition cat :: "'a list list \<Rightarrow> error + 'a list" where
  "cat ts = (if ts = [] then Inl RuntimeError else Inr (concat ts))"

definition get_src_permutation_idx :: "(nat list \<times> nat list) list \<Rightarrow> error + nat list \<times> nat list"
  where
  "get_src_permutation_idx indices =
     err_bind (cat (map (\<lambda>(i, (src, _)). replicate (length src) i) (enumerate 0 indices)))
       (\<lambda>batch_idx.
     err_bind (cat (map (\<lambda>(src, _). src) indices))
       (\<lambda>src_idx. Inr (batch_idx, src_idx)))"

text \<open>\<open>t[J]\<close> for a one-dimensional tensor \<open>t\<close> and an index tensor \<open>J\<close>.\<close>

definition index_select :: "'a list \<Rightarrow> nat list \<Rightarrow> error + 'a list" where
  "index_select t J = (if \<forall>j \<in> set J. j < length t then Inr (map (\<lambda>j. t ! j) J)
                       else Inl IndexError)"

fun err_all :: "(error + 'a) list \<Rightarrow> error + 'a list" where
  "err_all [] = Inr []"
| "err_all (x # xs) = err_bind x (\<lambda>y. err_bind (err_all xs) (\<lambda>ys. Inr (y # ys)))"

text \<open>\<open>torch.cat([t["labels"][J] for t, (_, J) in zip(targets, indices)])\<close>\<close>

definition cat_target_labels ::
  "nat list list \<Rightarrow> (nat list \<times> nat list) list \<Rightarrow> error + nat list" where
  "cat_target_labels targets indices =
     err_bind (err_all (map (\<lambda>(t, (_, J)). index_select t J) (zip targets indices))) cat"

text \<open>\<open>torch.full(src_logits.shape[:2], num_classes)\<close>\<close>

definition full_like_slots :: "'a list list \<Rightarrow> nat \<Rightarrow> nat list list" where
  "full_like_slots src_logits c = map (\<lambda>slots. replicate (length slots) c) src_logits"

text \<open>
  \<open>target_classes[idx] = values\<close> with \<open>idx = (batch_idx, src_idx)\<close>: positions out of range
  raise; \<open>values\<close> must have one entry per position, or a single entry, which is then
  written to every position. Positions are written in order.
\<close>

definition index_put :: "'a list list \<Rightarrow> nat list \<times> nat list \<Rightarrow> 'a list \<Rightarrow> error + 'a list list" where
  "index_put t idx vals =
     (let pos = zip (fst idx) (snd idx) in
      if \<not> (\<forall>(b, n) \<in> set pos. b < length t \<and> n < length (t ! b)) then Inl IndexError
      else if length vals \<noteq> length pos \<and> length vals \<noteq> 1 then Inl RuntimeError
      else Inr (fold (\<lambda>((b, n), v) t'. t'[b := (t' ! b)[n := v]])
                  (zip pos (if length vals = length pos then vals
                            else replicate (length pos) (hd vals))) t))"

text \<open>\<open>src_logits[idx]\<close>: the rows of the matched prediction slots.\<close>

definition index_rows :: "'a list list \<Rightarrow> nat list \<times> nat list \<Rightarrow> error + 'a list" where
  "index_rows t idx =
     (let pos = zip (fst idx) (snd idx) in
      if \<not> (\<forall>(b, n) \<in> set pos. b < length t \<and> n < length (t ! b)) then Inl IndexError
      else Inr (map (\<lambda>(b, n). t ! b ! n) pos))"

text \<open>
  \<open>output.topk(1, 1, True, True)\<close> on one row: the position of a largest entry (the first
  one here; the library does not fix which of several equal entries it returns).
\<close>

definition argmax_row :: "real list \<Rightarrow> nat" where
  "argmax_row row = hd (filter (\<lambda>i. \<forall>x \<in> set row. x \<le> row ! i) [0..<length row])"

text \<open>
  \<open>accuracy(output, target)\<close> with \<open>topk = (1,)\<close>, returning the single entry of its result
  list. An empty \<open>target\<close> returns zero at once.
\<close>

definition accuracy :: "real list list \<Rightarrow> nat list \<Rightarrow> error + real" where
  "accuracy output target =
     (if length target = 0 then Inr 0
      else if \<exists>row \<in> set output. length row < 1 then Inl RuntimeError
      else if length target \<noteq> length output \<and> length target \<noteq> 1 then Inl RuntimeError
      else
        (let batch_size = length target;
             pred = map argmax_row output;
             expanded = (if length target = length output then target
                         else replicate (length output) (hd target));
             correct = map (\<lambda>(p, t). p = t) (zip pred expanded);
             correct_k = real (length (filter (\<lambda>c. c) correct))
         in Inr (correct_k * (100 / real batch_size))))"

text \<open>
  \<open>loss_labels\<close>. \<open>F.cross_entropy\<close> belongs to the tensor library and is a parameter:
  it receives the logits, the target classes and the class weights, and may raise.
\<close>

definition empty_weight :: "criterion \<Rightarrow> real list" where
  "empty_weight self = replicate (num_classes self) 1 @ [eos_coef self]"

definition loss_labels ::
  "criterion \<Rightarrow> (real list list list \<Rightarrow> nat list list \<Rightarrow> real list \<Rightarrow> error + fval) \<Rightarrow>
   outputs \<Rightarrow> nat list list \<Rightarrow> (nat list \<times> nat list) list \<Rightarrow> bool \<Rightarrow>
   error + (string \<times> fval) list" where
  "loss_labels self cross_entropy outs targets indices do_log =
     (case pred_logits outs of
        None \<Rightarrow> Inl AssertionError
      | Some src_logits \<Rightarrow>
          err_bind (get_src_permutation_idx indices) (\<lambda>idx.
          err_bind (cat_target_labels targets indices) (\<lambda>target_classes_o.
          err_bind (index_put (full_like_slots src_logits (num_classes self)) idx target_classes_o)
            (\<lambda>target_classes.
          err_bind (cross_entropy src_logits target_classes (empty_weight self)) (\<lambda>loss_ce.
          if do_log then
            err_bind (index_rows src_logits idx) (\<lambda>matched.
            err_bind (accuracy matched target_classes_o) (\<lambda>acc.
              Inr [(''loss_ce'', loss_ce), (''class_error'', Fin (100 - acc))]))
          else Inr [(''loss_ce'', loss_ce)])))))"

text \<open>
  A target tensor as the library receives it, with its dtype. \<open>F.one_hot\<close> returns an
  int64 tensor, and slicing keeps the dtype.
\<close>

datatype target_tensor = LongTensor "nat list list list" | FloatTensor "real list list list"

text \<open>\<open>F.one_hot(target_classes, num_classes + 1)[..., :-1]\<close>: a class beyond \<open>num_classes\<close>
  raises; the no-object class \<open>num_classes\<close> becomes a row of zeros. The entries are the
  integers 0 and 1.\<close>

definition one_hot_drop_last :: "nat list list \<Rightarrow> nat \<Rightarrow> error + nat list list list" where
  "one_hot_drop_last target_classes nc =
     (if \<exists>slots \<in> set target_classes. \<exists>c \<in> set slots. nc < c then Inl RuntimeError
      else Inr (map (map (\<lambda>c. map (\<lambda>j. if j = c then 1 else 0) [0..<nc])) target_classes))"

text \<open>
  \<open>loss.mean(1)\<close> for one image: the mean over the prediction slots, one value per class.
  The mean over no slots at all is NaN. \<open>C\<close> is the number of classes.
\<close>

definition mean_over_slots :: "nat \<Rightarrow> real list list \<Rightarrow> fval list" where
  "mean_over_slots C img =
     (if img = [] then replicate C NaN
      else map (\<lambda>c. Fin (sum_list (map (\<lambda>row. row ! c) img) / real (length img))) [0..<C])"

text \<open>\<open>src_logits.shape[1]\<close>, the number of prediction slots per image.\<close>

definition num_slots :: "'a list list \<Rightarrow> nat" where
  "num_slots src_logits = (case src_logits of [] \<Rightarrow> 0 | slots # _ \<Rightarrow> length slots)"

text \<open>
  \<open>loss_labels_focal\<close>. \<open>torchvision.ops.sigmoid_focal_loss\<close> with \<open>reduction='none'\<close> is a
  parameter: it receives the logits, the target, \<open>alpha\<close> and \<open>gamma\<close>, and returns the loss
  of every element, or raises. The source hands it the one-hot target as \<open>F.one_hot\<close>
  returns it, an int64 tensor, without a cast.
\<close>

definition loss_labels_focal ::
  "criterion \<Rightarrow>
   (real list list list \<Rightarrow> target_tensor \<Rightarrow> real \<Rightarrow> real \<Rightarrow> error + real list list list) \<Rightarrow>
   outputs \<Rightarrow> nat list list \<Rightarrow> (nat list \<times> nat list) list \<Rightarrow> real \<Rightarrow>
   error + (string \<times> fval) list" where
  "loss_labels_focal self sigmoid_focal_loss outs targets indices num_boxes =
     (case pred_logits outs of
        None \<Rightarrow> Inl AssertionError
      | Some src_logits \<Rightarrow>
          err_bind (get_src_permutation_idx indices) (\<lambda>idx.
          err_bind (cat_target_labels targets indices) (\<lambda>target_classes_o.
          err_bind (index_put (full_like_slots src_logits (num_classes self)) idx target_classes_o)
            (\<lambda>target_classes.
          err_bind (one_hot_drop_last target_classes (num_classes self)) (\<lambda>target.
          err_bind (sigmoid_focal_loss src_logits (LongTensor target) (alpha self) (gamma self))
            (\<lambda>loss.
            Inr [(''loss_focal'',
                  fdiv (fmul (fsum (concat (map (mean_over_slots (num_classes self)) loss)))
                          (real (num_slots src_logits)))
                       num_boxes)]))))))"

text \<open>
  The library's focal loss, after its documentation: the binary cross entropy with logits
  of each element, scaled by \<open>(1 - p_t) ** gamma\<close> and, for a non-negative \<open>alpha\<close>, by the
  class balance factor. Its \<open>binary_cross_entropy_with_logits\<close> first requires logits and
  target to have one shape (ValueError) and then computes in the dtype of the logits, which
  fails on an int64 target (RuntimeError): only a float target yields a loss.
\<close>

definition binary_cross_entropy_with_logits :: "real \<Rightarrow> real \<Rightarrow> real" where
  "binary_cross_entropy_with_logits x t =
     - (t * ln (sigmoid x) + (1 - t) * ln (1 - sigmoid x))"

definition sigmoid_focal_loss_elem :: "real \<Rightarrow> real \<Rightarrow> real \<Rightarrow> real \<Rightarrow> real" where
  "sigmoid_focal_loss_elem a g x t =
     (let p = sigmoid x;
          ce_loss = binary_cross_entropy_with_logits x t;
          p_t = p * t + (1 - p) * (1 - t);
          loss = ce_loss * ((1 - p_t) powr g)
      in if a \<ge> 0 then (a * t + (1 - a) * (1 - t)) * loss else loss)"

definition torchvision_sigmoid_focal_loss ::
  "real list list list \<Rightarrow> target_tensor \<Rightarrow> real \<Rightarrow> real \<Rightarrow> error + real list list list" where
  "torchvision_sigmoid_focal_loss inputs targets a g =
     (case targets of
        LongTensor t \<Rightarrow>
          (if map (map length) inputs \<noteq> map (map length) t then Inl ValueError
           else Inl RuntimeError)
      | FloatTensor t \<Rightarrow>
          (if map (map length) inputs \<noteq> map (map length) t then Inl ValueError
           else Inr (map (\<lambda>(i2, t2). map (\<lambda>(i1, t1). map (\<lambda>(x, t). sigmoid_focal_loss_elem a g x t)
                       (zip i1 t1)) (zip i2 t2)) (zip inputs t))))"

text \<open>Inputs on which no prediction slot is matched.\<close>

definition labels_criterion :: criterion where
  "labels_criterion = \<lparr>weight_dict = [''loss_ce'' \<mapsto> 2, ''loss_focal'' \<mapsto> 1],
     losses = [''labels'', ''focal''], num_classes = 1, alpha = 0.2, gamma = 2,
     eos_coef = 0.0001, num_points = 12544, oversample_ratio = 3,
     importance_sample_ratio = 0.75\<rparr>"

definition no_match_logits :: outputs where
  "no_match_logits = \<lparr>pred_logits = Some [[[0, 0]]]\<rparr>"

definition two_slot_logits :: outputs where
  "two_slot_logits = \<lparr>pred_logits = Some [[[0], [0]]]\<rparr>"

section \<open>Point sampler\<close>

text \<open>
  A feature map has shape \<open>(N, C, H, W)\<close>: a list (batch) of lists (channels) of images, an
  image being a list of rows. A coordinate is a pair \<open>(x, y)\<close>, \<open>x\<close> running along the width.
  \<open>point_coords\<close> is either of shape \<open>(N, P, 2)\<close> or of shape \<open>(N, Hgrid, Wgrid, 2)\<close>, and the
  output of shape \<open>(N, C, P)\<close> or \<open>(N, C, Hgrid, Wgrid)\<close> accordingly.
\<close>

datatype point_coords = Coords3 "(real \<times> real) list list" | Coords4 "(real \<times> real) list list list"

datatype sampled = Out3 "real list list list" | Out4 "real list list list list"

text \<open>
  \<open>torch.nn.functional.grid_sample\<close> belongs to the tensor library. It is modelled after its
  documentation, with the defaults that \<open>point_sample\<close> leaves in place
  (\<open>mode='bilinear'\<close>, \<open>padding_mode='zeros'\<close>): a grid coordinate in \<open>[-1, 1]\<close> is mapped to a
  pixel position, the four pixels around that position are blended with bilinear weights,
  and a pixel outside the image counts as 0. The batch sizes of input and grid must agree
  and the image must not be empty.
\<close>

definition unnormalize :: "bool \<Rightarrow> nat \<Rightarrow> real \<Rightarrow> real" where
  "unnormalize align_corners sz c =
     (if align_corners then (c + 1) / 2 * (real sz - 1)
      else ((c + 1) * real sz - 1) / 2)"

definition width :: "'a list list \<Rightarrow> nat" where
  "width img = (case img of [] \<Rightarrow> 0 | row # _ \<Rightarrow> length row)"

definition pixel :: "real list list \<Rightarrow> int \<Rightarrow> int \<Rightarrow> real" where
  "pixel img iy ix =
     (if 0 \<le> iy \<and> iy < int (length img) \<and> 0 \<le> ix \<and> ix < int (width img)
      then img ! nat iy ! nat ix else 0)"

definition bilinear :: "bool \<Rightarrow> real list list \<Rightarrow> real \<times> real \<Rightarrow> real" where
  "bilinear align_corners img g =
     (let ix = unnormalize align_corners (width img) (fst g);
          iy = unnormalize align_corners (length img) (snd g);
          ix_nw = \<lfloor>ix\<rfloor>; iy_nw = \<lfloor>iy\<rfloor>;
          ix_se = ix_nw + 1; iy_se = iy_nw + 1;
          nw = (of_int ix_se - ix) * (of_int iy_se - iy);
          ne = (ix - of_int ix_nw) * (of_int iy_se - iy);
          sw = (of_int ix_se - ix) * (iy - of_int iy_nw);
          se = (ix - of_int ix_nw) * (iy - of_int iy_nw)
      in pixel img iy_nw ix_nw * nw + pixel img iy_nw ix_se * ne +
         pixel img iy_se ix_nw * sw + pixel img iy_se ix_se * se)"

definition grid_sample ::
  "real list list list list \<Rightarrow> (real \<times> real) list list list \<Rightarrow> bool \<Rightarrow>
   error + real list list list list" where
  "grid_sample input grid align_corners =
     (if length input \<noteq> length grid then Inl RuntimeError
      else if \<exists>maps \<in> set input. \<exists>img \<in> set maps. length img = 0 \<or> width img = 0
      then Inl RuntimeError
      else Inr (map (\<lambda>(maps, g). map (\<lambda>img. map (map (bilinear align_corners img)) g) maps)
                  (zip input grid)))"

text \<open>
  \<open>point_sample\<close>. A three-dimensional \<open>point_coords\<close> gets a unit dimension at position 2
  before the call and the output loses its dimension 3 after it; the coordinates are
  rescaled by \<open>2.0 * point_coords - 1.0\<close>. The keyword arguments are handed on to
  \<open>grid_sample\<close>; every caller passes \<open>align_corners=False\<close> and nothing else.
\<close>

definition rescale :: "real \<times> real \<Rightarrow> real \<times> real" where
  "rescale p = (2 * fst p - 1, 2 * snd p - 1)"

definition unsqueeze2 :: "'a list list \<Rightarrow> 'a list list list" where
  "unsqueeze2 t = map (map (\<lambda>p. [p])) t"

definition squeeze3 :: "'a list list list list \<Rightarrow> 'a list list list" where
  "squeeze3 t = map (map (map hd)) t"

definition point_sample ::
  "real list list list list \<Rightarrow> point_coords \<Rightarrow> bool \<Rightarrow> error + sampled" where
  "point_sample input coords align_corners =
     (case coords of
        Coords3 pc \<Rightarrow>
          err_bind (grid_sample input (map (map (map rescale)) (unsqueeze2 pc)) align_corners)
            (\<lambda>output. Inr (Out3 (squeeze3 output)))
      | Coords4 pc \<Rightarrow>
          err_bind (grid_sample input (map (map (map rescale)) pc) align_corners)
            (\<lambda>output. Inr (Out4 output)))"

text \<open>A feature map all of whose entries are \<open>k\<close>.\<close>

definition constant_map :: "nat \<Rightarrow> nat \<Rightarrow> nat \<Rightarrow> nat \<Rightarrow> real \<Rightarrow> real list list list list" where
  "constant_map N C H W k = replicate N (replicate C (replicate H (replicate W k)))"

section \<open>Adaptive coordinate generation\<close>

text \<open>
  \<open>calculate_uncertainty\<close>: the logits must have a single channel; the score of a point is
  the negated absolute value of its logit.
\<close>

definition calculate_uncertainty :: "real list list list \<Rightarrow> error + real list list list" where
  "calculate_uncertainty logits =
     (if \<exists>b \<in> set logits. length b \<noteq> 1 then Inl AssertionError
      else Inr (map (map (map (\<lambda>x. - \<bar>x\<bar>))) logits))"

text \<open>\<open>t[:, 0, :]\<close>\<close>

definition select_channel0 :: "'a list list \<Rightarrow> error + 'a list" where
  "select_channel0 t = (if \<exists>b \<in> set t. b = [] then Inl IndexError else Inr (map (\<lambda>b. b ! 0) t))"

text \<open>
  \<open>torch.topk(row, k)[1]\<close>: the positions of the \<open>k\<close> largest entries, largest first; more
  than the row holds raises. Equal entries are taken in the order of their positions here;
  the library leaves their order open.
\<close>

definition topk_indices :: "real list \<Rightarrow> nat \<Rightarrow> error + nat list" where
  "topk_indices row k =
     (if length row < k then Inl RuntimeError
      else Inr (take k (sort_key (\<lambda>i. - (row ! i)) [0..<length row])))"

text \<open>\<open>t.view(B, k, 2)\<close> on a flat list of \<open>B * k\<close> coordinates.\<close>

definition view_rows :: "nat \<Rightarrow> nat \<Rightarrow> 'a list \<Rightarrow> error + 'a list list" where
  "view_rows B k xs =
     (if length xs \<noteq> B * k then Inl RuntimeError
      else Inr (map (\<lambda>b. take k (drop (b * k) xs)) [0..<B]))"

text \<open>
  \<open>get_uncertain_point_coords_with_randomness\<close>. The two calls of \<open>torch.rand\<close> are the
  parameters \<open>rand1\<close> and \<open>rand2\<close>: \<open>rand1 b j\<close> is the \<open>j\<close>-th coordinate drawn for box \<open>b\<close>
  in the first call, \<open>rand2 b j\<close> in the second, so that any outcome of the draws is a
  choice of the two functions. \<open>int(x)\<close> on a non-negative product is the floor.
\<close>

definition get_uncertain_point_coords_with_randomness ::
  "(nat \<Rightarrow> nat \<Rightarrow> real \<times> real) \<Rightarrow> (nat \<Rightarrow> nat \<Rightarrow> real \<times> real) \<Rightarrow> real list list list list \<Rightarrow>
   (real list list list \<Rightarrow> error + real list list list) \<Rightarrow> nat \<Rightarrow> real \<Rightarrow> real \<Rightarrow>
   error + (real \<times> real) list list" where
  "get_uncertain_point_coords_with_randomness rand1 rand2 coarse_logits uncertainty_func
      n_points oversample importance =
     (if \<not> oversample \<ge> 1 then Inl AssertionError
      else if \<not> (importance \<le> 1 \<and> importance \<ge> 0) then Inl AssertionError
      else
        (let num_boxes = length coarse_logits;
             num_sampled = nat \<lfloor>real n_points * oversample\<rfloor>;
             point_coords = map (\<lambda>b. map (rand1 b) [0..<num_sampled]) [0..<num_boxes]
         in err_bind (point_sample coarse_logits (Coords3 point_coords) False) (\<lambda>sampled.
            case sampled of
              Out4 _ \<Rightarrow> Inl RuntimeError
            | Out3 point_logits \<Rightarrow>
            err_bind (uncertainty_func point_logits) (\<lambda>point_uncertainties.
            let num_uncertain_points = nat \<lfloor>importance * real n_points\<rfloor>;
                num_random_points = n_points - num_uncertain_points
            in err_bind (select_channel0 point_uncertainties) (\<lambda>u0.
               err_bind (err_all (map (\<lambda>row. topk_indices row num_uncertain_points) u0)) (\<lambda>idx.
               let shift = map (\<lambda>b. num_sampled * b) [0..<num_boxes];
                   idx_shifted = map (\<lambda>(s, row). map (\<lambda>i. i + s) row) (zip shift idx)
               in err_bind (index_select (concat point_coords) (concat idx_shifted)) (\<lambda>selected.
                  err_bind (view_rows num_boxes num_uncertain_points selected) (\<lambda>chosen.
                  if num_random_points > 0 then
                    Inr (map (\<lambda>(row, b). row @ map (rand2 b) [0..<num_random_points])
                           (zip chosen [0..<num_boxes]))
                  else Inr chosen))))))))"

text \<open>The uncertainty of the \<open>j\<close>-th candidate of box \<open>b\<close>.\<close>

definition candidate_uncertainty ::
  "(nat \<Rightarrow> nat \<Rightarrow> real \<times> real) \<Rightarrow> real list list list list \<Rightarrow> nat \<Rightarrow> nat \<Rightarrow> real" where
  "candidate_uncertainty rand1 coarse_logits b j =
     - \<bar>bilinear False (coarse_logits ! b ! 0) (rescale (rand1 b j))\<bar>"

text \<open>
  The names under which the six loss functions return values, and the invariant of the
  aggregate that \<open>forward\<close> builds: every entry is finite and stored under a weighted name
  of a loss function followed by a suffix.
\<close>

definition base_names :: "string list" where
  "base_names = [''loss_ce'', ''class_error'', ''loss_bbox'', ''loss_giou'', ''cardinality_error'',
     ''loss_focal'', ''loss_vfl'', ''loss_mask_bce'', ''loss_mask_dice'']"

definition weighted_finite :: "(string \<rightharpoonup> real) \<Rightarrow> (string \<times> fval) list \<Rightarrow> bool" where
  "weighted_finite wd acc \<longleftrightarrow>
     (\<forall>key v. map_of acc key = Some v \<longrightarrow>
        isfinite v \<and> (\<exists>k sfx. key = k @ sfx \<and> k \<in> set base_names \<and> wd k \<noteq> None))"

text \<open>A criterion with one requested loss and one weighted name, on final-layer outputs.\<close>

definition example_criterion :: "real \<Rightarrow> criterion" where
  "example_criterion w = \<lparr>weight_dict = [''loss_ce'' \<mapsto> w], losses = [''labels''],
     num_classes = 80, alpha = 0.2, gamma = 2, eos_coef = 0.0001, num_points = 12544,
     oversample_ratio = 3, importance_sample_ratio = 0.75\<rparr>"

definition example_outputs :: model_outputs where
  "example_outputs = \<lparr>has_pred_logits = True, has_pred_boxes = True, has_pred_masks = False,
     aux_outputs = None, dn_aux_outputs = None, dn_meta_entry = None\<rparr>"

definition example_lossval :: "fval \<Rightarrow> stage \<Rightarrow> nat \<Rightarrow> string \<Rightarrow> fval" where
  "example_lossval x s j k = (if k = ''class_error'' then x else Fin 3)"

text \<open>
  The candidates of box \<open>b\<close> that the top-k step selects among \<open>ns\<close> draws: the first \<open>k\<close>
  positions in the order of decreasing uncertainty.
\<close>

definition selected_candidates ::
  "(nat \<Rightarrow> nat \<Rightarrow> real \<times> real) \<Rightarrow> real list list list list \<Rightarrow> nat \<Rightarrow> nat \<Rightarrow> nat \<Rightarrow> nat list" where
  "selected_candidates rand1 coarse_logits b ns k =
     take k (sort_key (\<lambda>i. - (map (candidate_uncertainty rand1 coarse_logits b) [0..<ns] ! i))
               [0..<ns])"

text \<open>Draws and coarse logits used to exercise the adaptive coordinate generation.\<close>

definition example_rand1 :: "nat \<Rightarrow> nat \<Rightarrow> real \<times> real" where
  "example_rand1 b j = (if j = 0 then (1 / 2, 1 / 2) else if j = 1 then (1 / 4, 1 / 4)
                        else (3 / 4, 1 / 4))"

definition example_rand2 :: "nat \<Rightarrow> nat \<Rightarrow> real \<times> real" where
  "example_rand2 b j = (1 / 8, 1 / 8)"

definition example_coarse :: "real list list list list" where
  "example_coarse = [[[[1, - 1], [2, 3]]]]"





section \<open>Verified properties\<close>

subsection \<open>Index arithmetic of the denoising adapter\<close>

lemma concat_uniform_length:
  "\<forall>x \<in> set xss. length x = n \<Longrightarrow> length (concat xss) = length xss * n"
  by (induction xss) auto

lemma concat_uniform_nth:
  "\<forall>x \<in> set xss. length x = n \<Longrightarrow> g < length xss \<Longrightarrow> j < n \<Longrightarrow>
   concat xss ! (g * n + j) = xss ! g ! j"
proof (induction xss arbitrary: g)
  case Nil
  then show ?case by simp
next
  case (Cons x xss)
  show ?case
  proof (cases g)
    case 0
    with Cons.prems show ?thesis by (simp add: nth_append)
  next
    case (Suc g')
    with Cons.prems have "g' < length xss" by simp
    with Cons have IH: "concat xss ! (g' * n + j) = xss ! g' ! j" by simp
    from Cons.prems have "length x = n" by simp
    with Suc IH show ?thesis by (simp add: nth_append)
  qed
qed

lemma add_column_offsets:
  "add_column (group_offsets S sp) (repeat_rows S t) = map (\<lambda>g. map (\<lambda>x. g * sp + x) t) [0..<S]"
  unfolding add_column_def group_offsets_def repeat_rows_def
  by (rule nth_equalityI) (simp_all)

lemma cdn_map_known_image_tgt:
  "cdn_map_known_image S sp labels = (if labels = [] then ([], []) else
     (concat (map (\<lambda>g. map (\<lambda>x. g * sp + x) [0..<length labels]) [0..<S]),
      tile S (arange (length labels))))"
  using add_column_offsets[of S sp "arange (length labels)"]
  by (simp add: cdn_map_known_image_def Let_def flatten_def tile_def repeat_rows_def arange_def)

text \<open>
  Claim C7. In the map-known-indice scheme, with every key the adapter reads present and a
  positive \<open>scalar\<close> \<open>S\<close>: when \<open>pad_size\<close> is not divisible by \<open>S\<close> the call aborts
  with the failed assertion; when it is, the call returns one pair per image, the empty pair
  for an image without ground truths, and otherwise target indices \<open>arange(num_gt)\<close> tiled
  \<open>S\<close> times and prediction indices \<open>g * single_pad + j\<close> at position \<open>g * num_gt + j\<close>,
  for \<open>g < S\<close> and \<open>j < num_gt\<close>, with \<open>single_pad = pad_size div S\<close>.
\<close>

theorem map_known_cdn_indices:
  assumes "map_known_indice meta" "has_batch_idx meta" "has_known_lbs_bboxes meta"
    "has_known_indice meta" "scalar meta = Some S" "pad_size meta = Some pad" "S > 0"
  shows "(pad mod S \<noteq> 0 \<longrightarrow> get_cdn_matched_indices meta targets = Inl AssertionError) \<and>
    (pad mod S = 0 \<longrightarrow>
      (\<exists>res. get_cdn_matched_indices meta targets = Inr res \<and> length res = length targets \<and>
        (\<forall>i<length targets.
           (targets ! i = [] \<longrightarrow> res ! i = ([], [])) \<and>
           (targets ! i \<noteq> [] \<longrightarrow>
              snd (res ! i) = tile S (arange (length (targets ! i))) \<and>
              length (fst (res ! i)) = S * length (targets ! i) \<and>
              length (snd (res ! i)) = S * length (targets ! i) \<and>
              (\<forall>g<S. \<forall>j<length (targets ! i).
                 fst (res ! i) ! (g * length (targets ! i) + j) = g * (pad div S) + j \<and>
                 snd (res ! i) ! (g * length (targets ! i) + j) = j)))))"
proof (intro conjI impI)
  assume "pad mod S \<noteq> 0"
  with assms show "get_cdn_matched_indices meta targets = Inl AssertionError"
    by (simp add: get_cdn_matched_indices_def)
next
  assume div: "pad mod S = 0"
  let ?sp = "pad div S"
  let ?res = "map (cdn_map_known_image S ?sp) targets"
  have eq: "get_cdn_matched_indices meta targets = Inr ?res"
    using assms div by (simp add: get_cdn_matched_indices_def)
  have elems: "(targets ! i = [] \<longrightarrow> ?res ! i = ([], [])) \<and>
           (targets ! i \<noteq> [] \<longrightarrow>
              snd (?res ! i) = tile S (arange (length (targets ! i))) \<and>
              length (fst (?res ! i)) = S * length (targets ! i) \<and>
              length (snd (?res ! i)) = S * length (targets ! i) \<and>
              (\<forall>g<S. \<forall>j<length (targets ! i).
                 fst (?res ! i) ! (g * length (targets ! i) + j) = g * ?sp + j \<and>
                 snd (?res ! i) ! (g * length (targets ! i) + j) = j))"
    if i: "i < length targets" for i
  proof (cases "targets ! i = []")
    case True
    with i show ?thesis by (simp add: cdn_map_known_image_tgt)
  next
    case False
    let ?n = "length (targets ! i)"
    let ?rows = "map (\<lambda>g. map (\<lambda>x. g * ?sp + x) [0..<?n]) [0..<S]"
    have r: "?res ! i = (concat ?rows, tile S (arange ?n))"
      using i False by (simp add: cdn_map_known_image_tgt)
    have u1: "\<forall>x \<in> set ?rows. length x = ?n" by auto
    have u2: "\<forall>x \<in> set (replicate S (arange ?n)). length x = ?n" by (auto simp: arange_def)
    have l1: "length (concat ?rows) = S * ?n"
      using concat_uniform_length[OF u1] by simp
    have l2: "length (tile S (arange ?n)) = S * ?n"
      using concat_uniform_length[OF u2] by (simp add: tile_def)
    have n1: "concat ?rows ! (g * ?n + j) = g * ?sp + j" if "g < S" "j < ?n" for g j
      using concat_uniform_nth[OF u1, of g j] that by simp
    have n2: "tile S (arange ?n) ! (g * ?n + j) = j" if "g < S" "j < ?n" for g j
      using concat_uniform_nth[OF u2, of g j] that by (simp add: tile_def arange_def)
    from False r l1 l2 n1 n2 show ?thesis by simp
  qed
  show "\<exists>res. get_cdn_matched_indices meta targets = Inr res \<and> length res = length targets \<and>
        (\<forall>i<length targets.
           (targets ! i = [] \<longrightarrow> res ! i = ([], [])) \<and>
           (targets ! i \<noteq> [] \<longrightarrow>
              snd (res ! i) = tile S (arange (length (targets ! i))) \<and>
              length (fst (res ! i)) = S * length (targets ! i) \<and>
              length (snd (res ! i)) = S * length (targets ! i) \<and>
              (\<forall>g<S. \<forall>j<length (targets ! i).
                 fst (res ! i) ! (g * length (targets ! i) + j) = g * (pad div S) + j \<and>
                 snd (res ! i) ! (g * length (targets ! i) + j) = j)))"
  proof (intro exI[of _ ?res] conjI)
    show "get_cdn_matched_indices meta targets = Inr ?res" by (rule eq)
    show "length ?res = length targets" by simp
    show "\<forall>i<length targets.
           (targets ! i = [] \<longrightarrow> ?res ! i = ([], [])) \<and>
           (targets ! i \<noteq> [] \<longrightarrow>
              snd (?res ! i) = tile S (arange (length (targets ! i))) \<and>
              length (fst (?res ! i)) = S * length (targets ! i) \<and>
              length (snd (?res ! i)) = S * length (targets ! i) \<and>
              (\<forall>g<S. \<forall>j<length (targets ! i).
                 fst (?res ! i) ! (g * length (targets ! i) + j) = g * (pad div S) + j \<and>
                 snd (?res ! i) ! (g * length (targets ! i) + j) = j))"
      using elems by blast
  qed
qed

lemma length_tile_arange: "length (tile G (arange n)) = G * n"
  using concat_uniform_length[of "replicate G (arange n)" n]
  by (simp add: tile_def arange_def)

lemma nth_tile_arange: "g < G \<Longrightarrow> j < n \<Longrightarrow> tile G (arange n) ! (g * n + j) = j"
  using concat_uniform_nth[of "replicate G (arange n)" n g j]
  by (simp add: tile_def arange_def)

lemma cdn_legacy_loop_ok:
  "(\<forall>i<length ns. ns ! i > 0 \<longrightarrow> k + i < length dn_pos \<and> length (dn_pos ! (k + i)) = G * ns ! i)
   \<Longrightarrow> cdn_legacy_loop dn_pos G (enumerate k ns) =
       Inr (map (\<lambda>(i, n). if n > 0 then (dn_pos ! i, tile G (arange n)) else ([], []))
              (enumerate k ns))"
proof (induction ns arbitrary: k)
  case Nil
  then show ?case by simp
next
  case (Cons n ns)
  have "\<forall>i<length ns. ns ! i > 0 \<longrightarrow> Suc k + i < length dn_pos \<and>
          length (dn_pos ! (Suc k + i)) = G * ns ! i"
  proof (intro allI impI)
    fix i assume "i < length ns" "ns ! i > 0"
    with Cons.prems[rule_format, of "Suc i"] show
      "Suc k + i < length dn_pos \<and> length (dn_pos ! (Suc k + i)) = G * ns ! i" by simp
  qed
  from Cons.IH[OF this] have IH: "cdn_legacy_loop dn_pos G (enumerate (Suc k) ns) =
       Inr (map (\<lambda>(i, n). if n > 0 then (dn_pos ! i, tile G (arange n)) else ([], []))
              (enumerate (Suc k) ns))" .
  from Cons.prems[rule_format, of 0] have h: "n > 0 \<longrightarrow> k < length dn_pos \<and> length (dn_pos ! k) = G * n"
    by simp
  show ?case using IH h by (simp add: err_bind_def length_tile_arange)
qed

text \<open>
  Claim C6. In the legacy scheme (no \<open>map_known_indice\<close> key), on a non-empty batch whose
  positive-index lists have the length the source asserts, the call returns one pair per
  image: the empty pair for an image without ground truths, and otherwise that image's
  positive prediction indices paired with \<open>arange(num_gt)\<close> tiled \<open>G\<close> times, so that
  position \<open>g * num_gt + j\<close> holds \<open>j\<close> (for two ground truths and three groups:
  0, 1, 0, 1, 0, 1).
\<close>

theorem legacy_cdn_indices:
  assumes "\<not> map_known_indice meta"
    and "dn_positive_idx meta = Some dn_pos" and "dn_num_group meta = Some G"
    and "targets \<noteq> []"
    and "\<forall>i<length targets. targets ! i \<noteq> [] \<longrightarrow>
           i < length dn_pos \<and> length (dn_pos ! i) = G * length (targets ! i)"
  shows "\<exists>res. get_cdn_matched_indices meta targets = Inr res \<and> length res = length targets \<and>
     (\<forall>i<length targets.
        (targets ! i = [] \<longrightarrow> res ! i = ([], [])) \<and>
        (targets ! i \<noteq> [] \<longrightarrow>
           res ! i = (dn_pos ! i, tile G (arange (length (targets ! i)))) \<and>
           length (snd (res ! i)) = G * length (targets ! i) \<and>
           (\<forall>g<G. \<forall>j<length (targets ! i).
              snd (res ! i) ! (g * length (targets ! i) + j) = j)))"
proof -
  let ?f = "\<lambda>(i, n). if n > 0 then (dn_pos ! i, tile G (arange n)) else ([], [])"
  let ?res = "map ?f (enumerate 0 (map length targets))"
  have pre: "\<forall>i<length (map length targets). map length targets ! i > 0 \<longrightarrow>
      0 + i < length dn_pos \<and> length (dn_pos ! (0 + i)) = G * map length targets ! i"
    using assms(5) by auto
  have eq: "get_cdn_matched_indices meta targets = Inr ?res"
    using assms(1-4) cdn_legacy_loop_ok[OF pre]
    by (simp add: get_cdn_matched_indices_def)
  have nth: "?res ! i = (if targets ! i = [] then ([], [])
                else (dn_pos ! i, tile G (arange (length (targets ! i)))))"
    if "i < length targets" for i
    using that by (simp add: nth_enumerate_eq)
  show ?thesis
  proof (intro exI[of _ ?res] conjI)
    show "get_cdn_matched_indices meta targets = Inr ?res" by (rule eq)
    show "length ?res = length targets" by simp
    show "\<forall>i<length targets.
        (targets ! i = [] \<longrightarrow> ?res ! i = ([], [])) \<and>
        (targets ! i \<noteq> [] \<longrightarrow>
           ?res ! i = (dn_pos ! i, tile G (arange (length (targets ! i)))) \<and>
           length (snd (?res ! i)) = G * length (targets ! i) \<and>
           (\<forall>g<G. \<forall>j<length (targets ! i).
              snd (?res ! i) ! (g * length (targets ! i) + j) = j))"
      using nth by (simp add: length_tile_arange nth_tile_arange)
  qed
qed

lemma tile_3_arange_2: "tile 3 (arange 2) = [0, 1, 0, 1, 0, 1]"
  by code_simp

theorem legacy_cdn_indices_witness:
  "\<exists>res. get_cdn_matched_indices legacy_meta_example [[7, 8], []] = Inr res \<and>
     res ! 0 = ([0, 1, 4, 5, 8, 9], [0, 1, 0, 1, 0, 1]) \<and> res ! 1 = ([], [])"
proof -
  let ?T = "[[7, 8], []] :: nat list list"
  let ?P = "[[0, 1, 4, 5, 8, 9], []] :: nat list list"
  have h1: "\<not> map_known_indice legacy_meta_example"
    and h2: "dn_positive_idx legacy_meta_example = Some ?P"
    and h3: "dn_num_group legacy_meta_example = Some 3"
    by (simp_all add: legacy_meta_example_def)
  have h4: "?T \<noteq> []" by simp
  have h5: "\<forall>i<length ?T. ?T ! i \<noteq> [] \<longrightarrow>
     i < length ?P \<and> length (?P ! i) = 3 * length (?T ! i)"
    by (simp add: less_Suc_eq)
  from legacy_cdn_indices[OF h1 h2 h3 h4 h5] obtain res where
    r: "get_cdn_matched_indices legacy_meta_example ?T = Inr res"
    and e: "\<forall>i<length ?T.
        (?T ! i = [] \<longrightarrow> res ! i = ([], [])) \<and>
        (?T ! i \<noteq> [] \<longrightarrow> res ! i = (?P ! i, tile 3 (arange (length (?T ! i)))))"
    by blast
  from e[rule_format, of 0] have "res ! 0 = ([0, 1, 4, 5, 8, 9], [0, 1, 0, 1, 0, 1])"
    using tile_3_arange_2 by (simp add: numeral_2_eq_2)
  moreover from e[rule_format, of 1] have "res ! 1 = ([], [])" by simp
  ultimately show ?thesis using r by blast
qed

theorem map_known_cdn_indices_witness:
  "get_cdn_matched_indices (map_known_meta_example 13) [[7, 8], []] = Inl AssertionError \<and>
   (\<exists>res. get_cdn_matched_indices (map_known_meta_example 12) [[7, 8], []] = Inr res \<and>
      res ! 1 = ([], []) \<and> snd (res ! 0) = [0, 1, 0, 1, 0, 1] \<and>
      fst (res ! 0) ! (2 * 2 + 1) = 2 * (12 div 3) + 1)"
proof -
  let ?T = "[[7, 8], []] :: nat list list"
  have k: "map_known_indice (map_known_meta_example pad)"
    "has_batch_idx (map_known_meta_example pad)"
    "has_known_lbs_bboxes (map_known_meta_example pad)"
    "has_known_indice (map_known_meta_example pad)"
    "scalar (map_known_meta_example pad) = Some 3"
    "pad_size (map_known_meta_example pad) = Some pad" for pad
    by (simp_all add: map_known_meta_example_def)
  have pos: "(3::nat) > 0" by simp
  have bad: "(13::nat) mod 3 \<noteq> 0" and good: "(12::nat) mod 3 = 0" by simp_all
  note A = map_known_cdn_indices[OF k(1-6) pos, of 13 ?T]
  note B = map_known_cdn_indices[OF k(1-6) pos, of 12 ?T]
  from A bad have a: "get_cdn_matched_indices (map_known_meta_example 13) ?T = Inl AssertionError"
    by blast
  from B good obtain res where
    r: "get_cdn_matched_indices (map_known_meta_example 12) ?T = Inr res"
    and e: "\<forall>i<length ?T.
           (?T ! i = [] \<longrightarrow> res ! i = ([], [])) \<and>
           (?T ! i \<noteq> [] \<longrightarrow>
              snd (res ! i) = tile 3 (arange (length (?T ! i))) \<and>
              (\<forall>g<3. \<forall>j<length (?T ! i).
                 fst (res ! i) ! (g * length (?T ! i) + j) = g * (12 div 3) + j))"
    by blast
  from e[rule_format, of 1] have e1: "res ! 1 = ([], [])" by simp
  from e[rule_format, of 0] have e0: "snd (res ! 0) = [0, 1, 0, 1, 0, 1]"
    and e0': "\<forall>g<3. \<forall>j<2. fst (res ! 0) ! (g * 2 + j) = g * (12 div 3) + j"
    using tile_3_arange_2 by (simp_all add: numeral_2_eq_2)
  from e0'[rule_format, of 2 1] have "fst (res ! 0) ! (2 * 2 + 1) = 2 * (12 div 3) + 1" by simp
  with a r e1 e0 show ?thesis by blast
qed

subsection \<open>The aggregated mapping of \<open>forward\<close>\<close>

lemma get_loss_keys:
  "get_loss loss outputs vals lg = Inr l_dict \<Longrightarrow> fst ` set l_dict \<subseteq> set base_names"
  by (auto simp: get_loss_def loss_labels_dict_def loss_boxes_dict_def loss_cardinality_dict_def
      loss_labels_focal_dict_def loss_labels_vfl_dict_def loss_masks_dict_def base_names_def
      split: if_splits)

lemma base_names_prefix_free:
  "k \<in> set base_names \<Longrightarrow> k' \<in> set base_names \<Longrightarrow> prefix k k' \<Longrightarrow> k = k'"
  unfolding base_names_def by (elim disjE | simp)+

lemma base_names_append_eq:
  assumes "k \<in> set base_names" "k' \<in> set base_names" "k @ s = k' @ s'"
  shows "k = k'"
proof -
  from assms(3) have "prefix k k' \<or> prefix k' k"
    by (metis prefix_same_cases prefixI)
  with assms(1,2) show ?thesis using base_names_prefix_free by metis
qed

lemma isfinite_nan_to_num: "isfinite (nan_to_num v a b c)"
  by (cases v) simp_all

lemma isfinite_fmul: "isfinite v \<Longrightarrow> isfinite (fmul v w)"
  by (cases v) simp_all

lemma isfinite_stabilize_value: "isfinite (stabilize_value wd k v)"
  by (simp add: stabilize_value_def Let_def isfinite_nan_to_num)

lemma set_weighted:
  "set (add_suffix sfx (apply_weights wd (stabilize wd l))) =
     {(k @ sfx, fmul (stabilize_value wd k v) w) | k v w. (k, v) \<in> set l \<and> wd k = Some w}"
proof -
  have 1: "set (stabilize wd l) = {(k, stabilize_value wd k v) | k v. (k, v) \<in> set l}"
    by (auto simp: stabilize_def)
  have 2: "set (apply_weights wd l') = {(k, fmul v w) | k v w. (k, v) \<in> set l' \<and> wd k = Some w}"
    for l'
  proof -
    have "x \<in> set (apply_weights wd l') \<longleftrightarrow>
          (\<exists>k v w. x = (k, fmul v w) \<and> (k, v) \<in> set l' \<and> wd k = Some w)" for x
      unfolding apply_weights_def
      by (cases x) (force split: option.splits)
    then show ?thesis by blast
  qed
  have 3: "set (add_suffix sfx l') = {(k @ sfx, v) | k v. (k, v) \<in> set l'}" for l'
    by (auto simp: add_suffix_def)
  show ?thesis unfolding 3 2 1 by blast
qed

lemma map_of_dict_update: "map_of (dict_update acc l) = map_of acc ++ map_of (rev l)"
proof (induction l arbitrary: acc)
  case Nil
  then show ?case by (simp add: dict_update_def)
next
  case (Cons a l)
  obtain k v where a: "a = (k, v)" by (cases a)
  have "map_of (dict_update acc (a # l)) = map_of (dict_update (AList.update k v acc) l)"
    by (simp add: dict_update_def a)
  also have "\<dots> = (map_of acc)(k \<mapsto> v) ++ map_of (rev l)"
    by (simp only: Cons update_conv')
  also have "\<dots> = map_of acc ++ map_of (rev (a # l))"
    by (simp add: a map_add_upd_left fun_eq_iff map_add_def split: option.splits)
  finally show ?case .
qed

lemma dict_update_lookup:
  "map_of (dict_update acc l) key = Some v \<Longrightarrow> map_of acc key = Some v \<or> (key, v) \<in> set l"
  by (auto simp: map_of_dict_update dest: map_of_SomeD)

lemma weighted_finite_step:
  assumes inv: "weighted_finite wd acc"
    and gl: "get_loss loss outputs vals lg = Inr l_dict"
  shows "weighted_finite wd (dict_update acc (add_suffix sfx (apply_weights wd (stabilize wd l_dict))))"
  unfolding weighted_finite_def
proof (intro allI impI)
  fix key v
  assume "map_of (dict_update acc (add_suffix sfx (apply_weights wd (stabilize wd l_dict)))) key = Some v"
  then consider "map_of acc key = Some v"
    | "(key, v) \<in> set (add_suffix sfx (apply_weights wd (stabilize wd l_dict)))"
    using dict_update_lookup by blast
  then show "isfinite v \<and> (\<exists>k sfx. key = k @ sfx \<and> k \<in> set base_names \<and> wd k \<noteq> None)"
  proof cases
    case 1
    with inv show ?thesis unfolding weighted_finite_def by blast
  next
    case 2
    then obtain k v0 w where kv: "key = k @ sfx" "v = fmul (stabilize_value wd k v0) w"
      "(k, v0) \<in> set l_dict" "wd k = Some w"
      unfolding set_weighted by blast
    from kv(3) get_loss_keys[OF gl] have "k \<in> set base_names" by force
    with kv show ?thesis by (auto simp: isfinite_fmul isfinite_stabilize_value)
  qed
qed

lemma loss_loop_weighted_finite:
  "weighted_finite wd acc \<Longrightarrow> loss_loop wd vals outputs skip lg sfx js acc = Inr res \<Longrightarrow>
   weighted_finite wd res"
proof (induction wd vals outputs skip lg sfx js acc rule: loss_loop.induct)
  case (1 wd vals outputs skip lg sfx acc)
  then show ?case by simp
next
  case (2 wd vals outputs skip lg sfx j loss rest acc)
  show ?case
  proof (cases "skip \<and> loss = ''masks'' \<and> \<not> has_pred_masks outputs")
    case True
    with 2 show ?thesis by simp
  next
    case False
    with "2.prems"(2) obtain l_dict where
      gl: "get_loss loss outputs (vals j) (if loss = ''labels'' then lg else True) = Inr l_dict"
      and rest: "loss_loop wd vals outputs skip lg sfx rest
         (dict_update acc (add_suffix sfx (apply_weights wd (stabilize wd l_dict)))) = Inr res"
      by (auto split: sum.splits)
    from weighted_finite_step[OF "2.prems"(1) gl] "2.IH"(2)[OF False gl _ rest]
    show ?thesis by blast
  qed
qed

lemma aux_loop_weighted_finite:
  "weighted_finite (weight_dict self) acc \<Longrightarrow> aux_loop self lossval xs acc = Inr res \<Longrightarrow>
   weighted_finite (weight_dict self) res"
proof (induction self lossval xs acc rule: aux_loop.induct)
  case (1 self lossval acc)
  then show ?case by simp
next
  case (2 self lossval i aux_outputs rest acc)
  from "2.prems"(2) obtain mid where
    m: "loss_loop (weight_dict self) (lossval (Aux i)) aux_outputs True False
          (''_aux_'' @ str_nat i) (enumerate 0 (losses self)) acc = Inr mid"
    and r: "aux_loop self lossval rest mid = Inr res"
    by (auto simp: err_bind_def split: sum.splits)
  from loss_loop_weighted_finite[OF "2.prems"(1) m] "2.IH"[OF _ r] show ?case by blast
qed

lemma dn_aux_loop_weighted_finite:
  "weighted_finite (weight_dict self) acc \<Longrightarrow> dn_aux_loop self lossval xs acc = Inr res \<Longrightarrow>
   weighted_finite (weight_dict self) res"
proof (induction self lossval xs acc rule: dn_aux_loop.induct)
  case (1 self lossval acc)
  then show ?case by simp
next
  case (2 self lossval i aux rest acc)
  from "2.prems"(2) obtain mid where
    m: "loss_loop (weight_dict self) (lossval (DnAux i)) aux True True
          (''_dn_'' @ str_nat i) (enumerate 0 (losses self)) acc = Inr mid"
    and r: "dn_aux_loop self lossval rest mid = Inr res"
    by (auto simp: err_bind_def split: sum.splits)
  from loss_loop_weighted_finite[OF "2.prems"(1) m] "2.IH"[OF _ r] show ?case by blast
qed

lemma forward_weighted_finite:
  assumes "forward self lossval outputs targets = Inr res"
  shows "weighted_finite (weight_dict self) res"
proof -
  let ?wd = "weight_dict self"
  from assms obtain acc1 acc2 where
    a1: "loss_loop ?wd (lossval Main) outputs False True [] (enumerate 0 (losses self)) [] = Inr acc1"
    and a2: "(case aux_outputs outputs of None \<Rightarrow> Inr acc1
              | Some auxs \<Rightarrow> aux_loop self lossval (enumerate 0 auxs) acc1) = Inr acc2"
    and a3: "(case dn_aux_outputs outputs of
       None \<Rightarrow> Inr acc2
     | Some dn_outs \<Rightarrow>
         (case dn_meta_entry outputs of
            None \<Rightarrow> Inl KeyError
          | Some meta \<Rightarrow>
              err_bind (get_cdn_matched_indices meta targets)
                (\<lambda>dn_indices.
              err_bind
                (loss_loop ?wd (lossval Dn) dn_outs True True ''_dn''
                   (enumerate 0 (losses self)) acc2)
                (\<lambda>acc3.
              case dn_aux_list dn_outs of
                None \<Rightarrow> Inr acc3
              | Some dn_auxs \<Rightarrow> dn_aux_loop self lossval (enumerate 0 dn_auxs) acc3)))) = Inr res"
    unfolding forward_def err_bind_def by (auto split: sum.splits)
  have w0: "weighted_finite ?wd []" by (simp add: weighted_finite_def)
  have w1: "weighted_finite ?wd acc1" using loss_loop_weighted_finite[OF w0 a1] .
  have w2: "weighted_finite ?wd acc2"
    using a2 w1 aux_loop_weighted_finite by (auto split: option.splits)
  show ?thesis
  proof (cases "dn_aux_outputs outputs")
    case None
    with a3 w2 show ?thesis by simp
  next
    case (Some dn_outs)
    with a3 obtain acc3 where
      a4: "loss_loop ?wd (lossval Dn) dn_outs True True ''_dn'' (enumerate 0 (losses self)) acc2 = Inr acc3"
      and a5: "(case dn_aux_list dn_outs of None \<Rightarrow> Inr acc3
                | Some dn_auxs \<Rightarrow> dn_aux_loop self lossval (enumerate 0 dn_auxs) acc3) = Inr res"
      by (auto simp: err_bind_def split: option.splits sum.splits)
    have w3: "weighted_finite ?wd acc3" using loss_loop_weighted_finite[OF w2 a4] .
    show ?thesis using a5 w3 dn_aux_loop_weighted_finite by (auto split: option.splits)
  qed
qed

lemma loss_loop_returns:
  "loss_loop wd vals outputs skip lg sfx js acc = Inr res \<Longrightarrow>
   \<exists>res'. loss_loop wd' vals outputs skip lg sfx js acc' = Inr res'"
proof (induction wd vals outputs skip lg sfx js acc arbitrary: acc' res rule: loss_loop.induct)
  case (1 wd vals outputs skip lg sfx acc)
  then show ?case by simp
next
  case (2 wd vals outputs skip lg sfx j loss rest acc)
  show ?case
  proof (cases "skip \<and> loss = ''masks'' \<and> \<not> has_pred_masks outputs")
    case True
    with "2.prems" "2.IH"(1)[OF True, of res acc'] show ?thesis by simp
  next
    case False
    with "2.prems" obtain l_dict where
      gl: "get_loss loss outputs (vals j) (if loss = ''labels'' then lg else True) = Inr l_dict"
      and rest: "loss_loop wd vals outputs skip lg sfx rest
         (dict_update acc (add_suffix sfx (apply_weights wd (stabilize wd l_dict)))) = Inr res"
      by (auto split: sum.splits)
    from "2.IH"(2)[OF False gl rest,
        of "dict_update acc' (add_suffix sfx (apply_weights wd' (stabilize wd' l_dict)))"]
    obtain res' where "loss_loop wd' vals outputs skip lg sfx rest
       (dict_update acc' (add_suffix sfx (apply_weights wd' (stabilize wd' l_dict)))) = Inr res'"
      by blast
    with False gl show ?thesis by auto
  qed
qed

lemma aux_loop_returns:
  "aux_loop self lossval xs acc = Inr res \<Longrightarrow>
   \<exists>res'. aux_loop (self\<lparr>weight_dict := wd'\<rparr>) lossval xs acc' = Inr res'"
proof (induction self lossval xs acc arbitrary: acc' res rule: aux_loop.induct)
  case (1 self lossval acc)
  then show ?case by simp
next
  case (2 self lossval i aux_outputs rest acc)
  from "2.prems" obtain mid where
    m: "loss_loop (weight_dict self) (lossval (Aux i)) aux_outputs True False
          (''_aux_'' @ str_nat i) (enumerate 0 (losses self)) acc = Inr mid"
    and r: "aux_loop self lossval rest mid = Inr res"
    by (auto simp: err_bind_def split: sum.splits)
  from loss_loop_returns[OF m, of wd' acc'] obtain mid' where
    m': "loss_loop wd' (lossval (Aux i)) aux_outputs True False
          (''_aux_'' @ str_nat i) (enumerate 0 (losses self)) acc' = Inr mid'" by blast
  from "2.IH"[OF r, of mid'] m' show ?case by (simp add: err_bind_def)
qed

lemma dn_aux_loop_returns:
  "dn_aux_loop self lossval xs acc = Inr res \<Longrightarrow>
   \<exists>res'. dn_aux_loop (self\<lparr>weight_dict := wd'\<rparr>) lossval xs acc' = Inr res'"
proof (induction self lossval xs acc arbitrary: acc' res rule: dn_aux_loop.induct)
  case (1 self lossval acc)
  then show ?case by simp
next
  case (2 self lossval i aux rest acc)
  from "2.prems" obtain mid where
    m: "loss_loop (weight_dict self) (lossval (DnAux i)) aux True True
          (''_dn_'' @ str_nat i) (enumerate 0 (losses self)) acc = Inr mid"
    and r: "dn_aux_loop self lossval rest mid = Inr res"
    by (auto simp: err_bind_def split: sum.splits)
  from loss_loop_returns[OF m, of wd' acc'] obtain mid' where
    m': "loss_loop wd' (lossval (DnAux i)) aux True True
          (''_dn_'' @ str_nat i) (enumerate 0 (losses self)) acc' = Inr mid'" by blast
  from "2.IH"[OF r, of mid'] m' show ?case by (simp add: err_bind_def)
qed

lemma forward_returns:
  assumes "forward self lossval outputs targets = Inr res"
  shows "\<exists>res'. forward (self\<lparr>weight_dict := wd'\<rparr>) lossval outputs targets = Inr res'"
proof -
  let ?wd = "weight_dict self"
  let ?self' = "self\<lparr>weight_dict := wd'\<rparr>"
  from assms obtain acc1 acc2 where
    a1: "loss_loop ?wd (lossval Main) outputs False True [] (enumerate 0 (losses self)) [] = Inr acc1"
    and a2: "(case aux_outputs outputs of None \<Rightarrow> Inr acc1
              | Some auxs \<Rightarrow> aux_loop self lossval (enumerate 0 auxs) acc1) = Inr acc2"
    and a3: "(case dn_aux_outputs outputs of
       None \<Rightarrow> Inr acc2
     | Some dn_outs \<Rightarrow>
         (case dn_meta_entry outputs of
            None \<Rightarrow> Inl KeyError
          | Some meta \<Rightarrow>
              err_bind (get_cdn_matched_indices meta targets)
                (\<lambda>dn_indices.
              err_bind
                (loss_loop ?wd (lossval Dn) dn_outs True True ''_dn''
                   (enumerate 0 (losses self)) acc2)
                (\<lambda>acc3.
              case dn_aux_list dn_outs of
                None \<Rightarrow> Inr acc3
              | Some dn_auxs \<Rightarrow> dn_aux_loop self lossval (enumerate 0 dn_auxs) acc3)))) = Inr res"
    unfolding forward_def err_bind_def by (auto split: sum.splits)
  from loss_loop_returns[OF a1, of wd' "[]"] obtain b1 where
    b1: "loss_loop wd' (lossval Main) outputs False True [] (enumerate 0 (losses self)) [] = Inr b1"
    by blast
  have "\<exists>b2. (case aux_outputs outputs of None \<Rightarrow> Inr b1
              | Some auxs \<Rightarrow> aux_loop ?self' lossval (enumerate 0 auxs) b1) = Inr b2"
    using a2 aux_loop_returns[of self lossval _ acc1 acc2 wd' b1] by (auto split: option.splits)
  then obtain b2 where b2: "(case aux_outputs outputs of None \<Rightarrow> Inr b1
              | Some auxs \<Rightarrow> aux_loop ?self' lossval (enumerate 0 auxs) b1) = Inr b2" by blast
  have "\<exists>b3. (case dn_aux_outputs outputs of
       None \<Rightarrow> Inr b2
     | Some dn_outs \<Rightarrow>
         (case dn_meta_entry outputs of
            None \<Rightarrow> Inl KeyError
          | Some meta \<Rightarrow>
              err_bind (get_cdn_matched_indices meta targets)
                (\<lambda>dn_indices.
              err_bind
                (loss_loop (weight_dict ?self') (lossval Dn) dn_outs True True ''_dn''
                   (enumerate 0 (losses ?self')) b2)
                (\<lambda>acc3.
              case dn_aux_list dn_outs of
                None \<Rightarrow> Inr acc3
              | Some dn_auxs \<Rightarrow> dn_aux_loop ?self' lossval (enumerate 0 dn_auxs) acc3)))) = Inr b3"
  proof (cases "dn_aux_outputs outputs")
    case None
    then show ?thesis by simp
  next
    case (Some dn_outs)
    with a3 obtain meta dn_indices acc3 where
      dm: "dn_meta_entry outputs = Some meta"
      and gi: "get_cdn_matched_indices meta targets = Inr dn_indices"
      and a4: "loss_loop ?wd (lossval Dn) dn_outs True True ''_dn'' (enumerate 0 (losses self)) acc2 = Inr acc3"
      and a5: "(case dn_aux_list dn_outs of None \<Rightarrow> Inr acc3
                | Some dn_auxs \<Rightarrow> dn_aux_loop self lossval (enumerate 0 dn_auxs) acc3) = Inr res"
      by (auto simp: err_bind_def split: option.splits sum.splits)
    from loss_loop_returns[OF a4, of wd' b2] obtain b3 where
      b3: "loss_loop wd' (lossval Dn) dn_outs True True ''_dn'' (enumerate 0 (losses self)) b2 = Inr b3"
      by blast
    have "\<exists>b4. (case dn_aux_list dn_outs of None \<Rightarrow> Inr b3
                | Some dn_auxs \<Rightarrow> dn_aux_loop ?self' lossval (enumerate 0 dn_auxs) b3) = Inr b4"
      using a5 dn_aux_loop_returns[of self lossval _ acc3 res wd' b3] by (auto split: option.splits)
    then obtain b4 where b4: "(case dn_aux_list dn_outs of None \<Rightarrow> Inr b3
                | Some dn_auxs \<Rightarrow> dn_aux_loop ?self' lossval (enumerate 0 dn_auxs) b3) = Inr b4"
      by blast
    show ?thesis
      by (rule exI[of _ b4]) (simp add: Some dm gi err_bind_def b3 b4)
  qed
  then obtain b3 where b3: "(case dn_aux_outputs outputs of
       None \<Rightarrow> Inr b2
     | Some dn_outs \<Rightarrow>
         (case dn_meta_entry outputs of
            None \<Rightarrow> Inl KeyError
          | Some meta \<Rightarrow>
              err_bind (get_cdn_matched_indices meta targets)
                (\<lambda>dn_indices.
              err_bind
                (loss_loop (weight_dict ?self') (lossval Dn) dn_outs True True ''_dn''
                   (enumerate 0 (losses ?self')) b2)
                (\<lambda>acc3.
              case dn_aux_list dn_outs of
                None \<Rightarrow> Inr acc3
              | Some dn_auxs \<Rightarrow> dn_aux_loop ?self' lossval (enumerate 0 dn_auxs) acc3)))) = Inr b3"
    by blast
  have "forward ?self' lossval outputs targets = Inr b3"
    unfolding forward_def by (simp add: b1 b2 b3 err_bind_def[of "Inr _"])
  then show ?thesis by blast
qed

lemma forward_unweighted_absent:
  assumes "forward self lossval outputs targets = Inr res"
    and "get_loss loss outs vals lg = Inr l_dict" and "(k, v) \<in> set l_dict"
    and "weight_dict self k = None"
  shows "map_of res (k @ sfx) = None"
proof (rule ccontr)
  from get_loss_keys[OF assms(2)] assms(3) have kb: "k \<in> set base_names" by force
  assume "map_of res (k @ sfx) \<noteq> None"
  then obtain x where "map_of res (k @ sfx) = Some x" by blast
  with forward_weighted_finite[OF assms(1)] obtain k' sfx' where
    e: "k @ sfx = k' @ sfx'" and kb': "k' \<in> set base_names" and w: "weight_dict self k' \<noteq> None"
    unfolding weighted_finite_def by blast
  from base_names_append_eq[OF kb kb' e] w assms(4) show False by simp
qed

lemma get_loss_distinct:
  "get_loss loss outputs vals lg = Inr l_dict \<Longrightarrow> distinct (map fst l_dict)"
  by (auto simp: get_loss_def loss_labels_dict_def loss_boxes_dict_def loss_cardinality_dict_def
      loss_labels_focal_dict_def loss_labels_vfl_dict_def loss_masks_dict_def
      split: if_splits)

lemma map_of_stabilize:
  "map_of (stabilize wd l) k = map_option (stabilize_value wd k) (map_of l k)"
  by (induction l) (auto simp: stabilize_def)

lemma map_of_apply_weights:
  "map_of (apply_weights wd l) k =
     (case wd k of None \<Rightarrow> None | Some w \<Rightarrow> map_option (\<lambda>v. fmul v w) (map_of l k))"
  by (induction l) (auto simp: apply_weights_def split: option.splits)

lemma stabilize_value_nonfinite:
  "\<not> isfinite v \<Longrightarrow> stabilize_value wd k v =
     Fin ((if v = NegInf then - 1 else 1) * (10 * (case wd k of None \<Rightarrow> 1 | Some w \<Rightarrow> w)))"
  by (cases v) (simp_all add: stabilize_value_def Let_def)

text \<open>
  Claim C8. When \<open>forward\<close> returns, a name that some loss function computes and that has
  no entry in the weight table is not a key of the result, neither bare (final layer) nor
  under any suffix (auxiliary and denoising places); and the outcome of the call does not
  hinge on the weight table: with any other table, the empty one included, the call returns
  as well.
\<close>

theorem weight_table_filtering:
  assumes "forward self lossval outputs targets = Inr res"
    and "get_loss loss outs vals lg = Inr l_dict" and "(k, v) \<in> set l_dict"
    and "weight_dict self k = None"
  shows "map_of res (k @ sfx) = None \<and>
         (\<exists>res'. forward (self\<lparr>weight_dict := wd'\<rparr>) lossval outputs targets = Inr res')"
  using forward_unweighted_absent[OF assms] forward_returns[OF assms(1)] by blast

text \<open>
  Claim C10. A value that is not finite and whose name has no entry in the weight table is
  replaced with the default weight 1.0, that is by 10.0 (by -10.0 for negative infinity)
  and without an error; the weight filter then drops the entry, and the result of
  \<open>forward\<close> has no entry under that name, with or without a suffix.
\<close>

theorem unweighted_nonfinite_default:
  assumes "weight_dict self k = None" and "\<not> isfinite v"
    and "get_loss loss outs vals lg = Inr l_dict" and "(k, v) \<in> set l_dict"
    and "forward self lossval outputs targets = Inr res"
  shows "map_of (stabilize (weight_dict self) l_dict) k =
           Some (if v = NegInf then Fin (- 10) else Fin 10) \<and>
         map_of (apply_weights (weight_dict self) (stabilize (weight_dict self) l_dict)) k = None \<and>
         map_of res (k @ sfx) = None"
  using assms get_loss_distinct[OF assms(3)] forward_unweighted_absent[OF assms(5,3,4,1)]
  by (simp add: map_of_stabilize map_of_apply_weights stabilize_value_nonfinite)

lemma example_get_loss:
  "get_loss ''labels'' example_outputs (example_lossval x Main 0) True =
     Inr [(''loss_ce'', Fin 3), (''class_error'', x)]"
  by (simp add: get_loss_def loss_labels_dict_def example_outputs_def example_lossval_def)

lemma example_forward:
  "forward (example_criterion 2) (example_lossval x) example_outputs [[]] = Inr [(''loss_ce'', Fin 6)]"
  by (simp add: forward_def example_criterion_def example_outputs_def err_bind_def enumerate_eq_zip
      get_loss_def loss_labels_dict_def stabilize_def stabilize_value_def apply_weights_def
      add_suffix_def dict_update_def example_lossval_def)

lemma example_forward_empty:
  "forward (example_criterion 2\<lparr>weight_dict := Map.empty\<rparr>) (example_lossval x) example_outputs [[]]
     = Inr []"
  by (simp add: forward_def example_criterion_def example_outputs_def err_bind_def enumerate_eq_zip
      get_loss_def loss_labels_dict_def stabilize_def stabilize_value_def apply_weights_def
      add_suffix_def dict_update_def example_lossval_def)

theorem weight_table_filtering_witness:
  "forward (example_criterion 2) (example_lossval (Fin 50)) example_outputs [[]] =
     Inr [(''loss_ce'', Fin 6)] \<and>
   map_of [(''loss_ce'', Fin 6)] (''class_error'' @ ''_aux_0'') = None \<and>
   map_of [(''loss_ce'', Fin 6)] ''class_error'' = None \<and>
   forward (example_criterion 2\<lparr>weight_dict := Map.empty\<rparr>) (example_lossval (Fin 50))
     example_outputs [[]] = Inr []"
proof -
  have w: "weight_dict (example_criterion 2) ''class_error'' = None"
    by (simp add: example_criterion_def)
  have m: "(''class_error'', Fin 50) \<in> set [(''loss_ce'', Fin 3), (''class_error'', Fin 50)]"
    by simp
  note T = weight_table_filtering[OF example_forward example_get_loss m w]
  from T[of "''_aux_0''"] T[of "[]" Map.empty] example_forward example_forward_empty
  show ?thesis by simp
qed

theorem unweighted_nonfinite_default_witness:
  "map_of (stabilize (weight_dict (example_criterion 2))
      [(''loss_ce'', Fin 3), (''class_error'', NegInf)]) ''class_error'' = Some (Fin (- 10)) \<and>
   map_of (stabilize (weight_dict (example_criterion 2))
      [(''loss_ce'', Fin 3), (''class_error'', NaN)]) ''class_error'' = Some (Fin 10) \<and>
   forward (example_criterion 2) (example_lossval NegInf) example_outputs [[]] =
     Inr [(''loss_ce'', Fin 6)] \<and>
   map_of [(''loss_ce'', Fin 6)] ''class_error'' = None"
proof -
  have w: "weight_dict (example_criterion 2) ''class_error'' = None"
    by (simp add: example_criterion_def)
  have m: "(''class_error'', x) \<in> set [(''loss_ce'', Fin 3), (''class_error'', x)]" for x :: fval
    by simp
  have n: "\<not> isfinite NegInf" "\<not> isfinite NaN" by simp_all
  note A = unweighted_nonfinite_default[OF w n(1) example_get_loss m example_forward, of "[]"]
  note B = unweighted_nonfinite_default[OF w n(2) example_get_loss m example_forward, of "[]"]
  from A B example_forward show ?thesis by simp
qed

subsection \<open>Dice loss\<close>

lemma sigmoid_nonneg: "0 \<le> sigmoid x"
  by (simp add: sigmoid_def)

lemma sigmoid_bounds: "0 < sigmoid x \<and> sigmoid x < 1"
proof -
  have "0 < exp (- x)" by simp
  then show ?thesis by (simp add: sigmoid_def add_pos_pos)
qed

lemma sum_list_nonneg': "(\<forall>x \<in> set xs. (0::real) \<le> x) \<Longrightarrow> 0 \<le> sum_list xs"
  by (induction xs) auto

lemma fsum_Fin_aux: "foldl fadd (Fin a) (map Fin xs) = Fin (a + sum_list xs)"
  by (induction xs arbitrary: a) (simp_all add: add.assoc)

lemma fsum_Fin: "fsum (map Fin xs) = Fin (sum_list xs)"
  by (simp add: fsum_def fsum_Fin_aux)

lemma dice_denominator_ge:
  assumes "\<forall>row \<in> set targets. \<forall>t \<in> set row. 0 \<le> t"
    and "d \<in> set (dice_denominator (map (map sigmoid) inputs) targets)"
  shows "1 \<le> d + 1"
proof -
  from assms(2) obtain i t where it: "(i, t) \<in> set (zip (map (map sigmoid) inputs) targets)"
    and d: "d = sum_list i + sum_list t"
    by (auto simp: dice_denominator_def)
  from it have "i \<in> set (map (map sigmoid) inputs)" and tt: "t \<in> set targets"
    by (auto dest: set_zip_leftD set_zip_rightD)
  then have "\<forall>x \<in> set i. 0 \<le> x" by (auto simp: sigmoid_nonneg)
  then have "0 \<le> sum_list i" by (rule sum_list_nonneg')
  moreover from tt assms(1) have "0 \<le> sum_list t" by (auto intro: sum_list_nonneg')
  ultimately show ?thesis using d by simp
qed

lemma dice_per_pair_finite:
  assumes "\<forall>row \<in> set targets. \<forall>t \<in> set row. 0 \<le> t"
  shows "dice_per_pair (map (map sigmoid) inputs) targets =
     map Fin (map (\<lambda>(n, d). 1 - (n + 1) / (d + 1))
       (zip (dice_numerator (map (map sigmoid) inputs) targets)
            (dice_denominator (map (map sigmoid) inputs) targets)))"
proof -
  have "fadd (Fin 1) (fneg (tdiv (n + 1) (d + 1))) = Fin (1 - (n + 1) / (d + 1))"
    if "(n, d) \<in> set (zip (dice_numerator (map (map sigmoid) inputs) targets)
            (dice_denominator (map (map sigmoid) inputs) targets))" for n d
  proof -
    from that have "d \<in> set (dice_denominator (map (map sigmoid) inputs) targets)"
      by (rule set_zip_rightD)
    from dice_denominator_ge[OF assms this] have "d + 1 \<noteq> 0" by simp
    then show ?thesis by (simp add: tdiv_def)
  qed
  then show ?thesis by (auto simp: dice_per_pair_def)
qed

text \<open>
  Claim C9. For inputs and targets of one shape, targets without negative entries and a
  positive normaliser: the sigmoid lies strictly between 0 and 1, every divisor
  \<open>denominator + 1\<close> is at least 1, \<open>dice_loss\<close> returns a finite value, and on no pairs at
  all it returns 0.
\<close>

theorem dice_loss_well_defined:
  assumes "same_shape inputs targets"
    and "\<forall>row \<in> set targets. \<forall>t \<in> set row. 0 \<le> t"
    and "0 < num_masks"
  shows "(\<forall>x. 0 < sigmoid x \<and> sigmoid x < 1) \<and>
         (\<forall>d \<in> set (dice_denominator (map (map sigmoid) inputs) targets). 1 \<le> d + 1) \<and>
         (\<exists>l. dice_loss inputs targets num_masks = Inr (Fin l)) \<and>
         dice_loss [] [] num_masks = Inr (Fin 0)"
proof (intro conjI)
  show "\<forall>x. 0 < sigmoid x \<and> sigmoid x < 1" using sigmoid_bounds by blast
  show "\<forall>d \<in> set (dice_denominator (map (map sigmoid) inputs) targets). 1 \<le> d + 1"
    using dice_denominator_ge[OF assms(2)] by blast
  from assms(1) have ss: "same_shape (map (map sigmoid) inputs) targets"
    by (simp add: same_shape_def comp_def)
  show "\<exists>l. dice_loss inputs targets num_masks = Inr (Fin l)"
    using ss assms(3)
    unfolding dice_loss_def Let_def dice_per_pair_finite[OF assms(2)] fsum_Fin
    by (simp add: tdiv_def)
  show "dice_loss [] [] num_masks = Inr (Fin 0)"
    using assms(3)
    by (simp add: dice_loss_def same_shape_def dice_per_pair_def dice_numerator_def
        dice_denominator_def fsum_def tdiv_def)
qed

theorem dice_loss_well_defined_witness:
  "(\<exists>l. dice_loss [[0, 0]] [[1, 0]] 2 = Inr (Fin l)) \<and> dice_loss [] [] 2 = Inr (Fin 0)"
proof -
  have a: "same_shape [[0, 0 :: real]] [[1, 0 :: real]]" by (simp add: same_shape_def)
  have b: "\<forall>row \<in> set [[1, 0 :: real]]. \<forall>t \<in> set row. 0 \<le> t" by simp
  have c: "(0::real) < 2" by simp
  from dice_loss_well_defined[OF a b c] show ?thesis by blast
qed

subsection \<open>Cross-entropy classification loss\<close>

lemma get_src_permutation_idx_empty:
  assumes "indices \<noteq> []" and "\<forall>p \<in> set indices. fst p = []"
  shows "get_src_permutation_idx indices = Inr ([], [])"
proof -
  have "concat (map (\<lambda>(i, (src, _)). replicate (length src) i) (enumerate n indices)) = []" for n
    using assms(2) by (induction indices arbitrary: n) (auto split: prod.splits)
  moreover have "concat (map (\<lambda>(src, _). src) indices) = []"
    using assms(2) by (induction indices) (auto split: prod.splits)
  moreover from assms(1) have "enumerate 0 indices \<noteq> []" by (cases indices) simp_all
  ultimately show ?thesis using assms(1)
    by (simp add: get_src_permutation_idx_def cat_def err_bind_def)
qed

lemma err_all_empty_selects:
  assumes "\<forall>p \<in> set indices. snd p = []"
  shows "err_all (map (\<lambda>(t, (_, J)). index_select t J) (zip targets indices)) =
           Inr (replicate (length (zip targets indices)) [])"
  using assms
proof (induction indices arbitrary: targets)
  case Nil
  then show ?case by simp
next
  case (Cons p indices)
  show ?case
  proof (cases targets)
    case Nil
    then show ?thesis by simp
  next
    case (Cons t ts)
    with Cons.prems Cons.IH[of ts] show ?thesis
      by (cases p) (simp add: index_select_def err_bind_def)
  qed
qed

lemma cat_target_labels_empty:
  assumes "indices \<noteq> []" "targets \<noteq> []" and "\<forall>p \<in> set indices. snd p = []"
  shows "cat_target_labels targets indices = Inr []"
proof -
  from assms(1,2) have "zip targets indices \<noteq> []" by (cases targets; cases indices) simp_all
  then show ?thesis
    by (simp add: cat_target_labels_def err_all_empty_selects[OF assms(3)] err_bind_def cat_def)
qed

text \<open>
  Claim C2, as the code has it. On a non-empty batch in which no prediction slot is
  matched, \<open>accuracy\<close> returns 0 for the empty target and \<open>loss_labels\<close> reports
  \<open>class_error = 100 - 0 = 100\<close>, next to the cross entropy.
\<close>

theorem class_error_no_match:
  assumes "pred_logits outs = Some src_logits"
    and "indices \<noteq> []" and "targets \<noteq> []"
    and "\<forall>p \<in> set indices. fst p = [] \<and> snd p = []"
    and "cross_entropy src_logits (full_like_slots src_logits (num_classes self))
           (empty_weight self) = Inr loss_ce"
  shows "loss_labels self cross_entropy outs targets indices True =
           Inr [(''loss_ce'', loss_ce), (''class_error'', Fin 100)]"
proof -
  from assms(4) have f: "\<forall>p \<in> set indices. fst p = []" and s: "\<forall>p \<in> set indices. snd p = []"
    by auto
  show ?thesis
    using assms(1,5)
    by (simp add: loss_labels_def get_src_permutation_idx_empty[OF assms(2) f]
        cat_target_labels_empty[OF assms(2,3) s] err_bind_def index_put_def index_rows_def
        accuracy_def)
qed

theorem class_error_no_match_counterexample:
  "loss_labels labels_criterion (\<lambda>l t w. Inr (Fin 1)) no_match_logits [[]] [([], [])] True =
     Inr [(''loss_ce'', Fin 1), (''class_error'', Fin 100)] \<and> Fin 100 \<noteq> Fin 0"
  by (simp add: loss_labels_def no_match_logits_def get_src_permutation_idx_def cat_def
      cat_target_labels_def index_select_def err_bind_def index_put_def index_rows_def
      accuracy_def enumerate_eq_zip full_like_slots_def)

theorem class_error_no_match_witness:
  "loss_labels labels_criterion (\<lambda>l t w. Inr (Fin 3)) no_match_logits [[], [5]]
     [([], []), ([], [])] True = Inr [(''loss_ce'', Fin 3), (''class_error'', Fin 100)]"
proof -
  have p: "pred_logits no_match_logits = Some [[[0, 0]]]" by (simp add: no_match_logits_def)
  have i: "[([], []), ([], [])] \<noteq> ([] :: (nat list \<times> nat list) list)" by simp
  have t: "[[], [5]] \<noteq> ([] :: nat list list)" by simp
  have e: "\<forall>p \<in> set [([], []), ([], [])]. fst p = ([] :: nat list) \<and> snd p = ([] :: nat list)"
    by simp
  have c: "(\<lambda>l t w. Inr (Fin 3)) [[[0, 0 :: real]]]
      (full_like_slots [[[0, 0 :: real]]] (num_classes labels_criterion))
      (empty_weight labels_criterion) = (Inr (Fin 3) :: error + fval)" by simp
  from class_error_no_match[where cross_entropy = "\<lambda>l t w. Inr (Fin 3)" and self = labels_criterion,
      OF p i t e c]
  show ?thesis .
qed

subsection \<open>Focal classification loss\<close>

lemma torchvision_focal_long_raises:
  "\<exists>e. torchvision_sigmoid_focal_loss inputs (LongTensor t) a g = Inl e"
  by (simp add: torchvision_sigmoid_focal_loss_def)

lemma loss_labels_focal_never_returns:
  "\<exists>e. loss_labels_focal self torchvision_sigmoid_focal_loss outs targets indices num_boxes = Inl e"
proof (cases "pred_logits outs")
  case None
  then show ?thesis by (simp add: loss_labels_focal_def)
next
  case (Some src_logits)
  show ?thesis
  proof (cases "get_src_permutation_idx indices")
    case (Inl e)
    with Some show ?thesis by (simp add: loss_labels_focal_def err_bind_def)
  next
    case idx: (Inr idx)
    show ?thesis
    proof (cases "cat_target_labels targets indices")
      case (Inl e)
      with Some idx show ?thesis by (simp add: loss_labels_focal_def err_bind_def)
    next
      case tco: (Inr target_classes_o)
      show ?thesis
      proof (cases "index_put (full_like_slots src_logits (num_classes self)) idx target_classes_o")
        case (Inl e)
        with Some idx tco show ?thesis by (simp add: loss_labels_focal_def err_bind_def)
      next
        case tc: (Inr target_classes)
        show ?thesis
        proof (cases "one_hot_drop_last target_classes (num_classes self)")
          case (Inl e)
          with Some idx tco tc show ?thesis by (simp add: loss_labels_focal_def err_bind_def)
        next
          case (Inr target)
          from torchvision_focal_long_raises[of src_logits target "alpha self" "gamma self"]
          obtain e where "torchvision_sigmoid_focal_loss src_logits (LongTensor target)
             (alpha self) (gamma self) = Inl e" by blast
          with Some idx tco tc Inr show ?thesis by (simp add: loss_labels_focal_def err_bind_def)
        qed
      qed
    qed
  qed
qed

text \<open>
  Claim C3. The claim expects a loss value from \<open>loss_labels_focal\<close>. With one class and the
  logits \<open>[[[0], [0]]]\<close> of one image with two prediction slots, no ground truth and the
  empty assignment, the target is built, \<open>[[[0], [0]]]\<close> as int64, and the library call
  raises on it: the function returns no loss. By \<open>loss_labels_focal_never_returns\<close> the
  same holds on every input.
\<close>

theorem loss_labels_focal_raises:
  "one_hot_drop_last [[1, 1]] (num_classes labels_criterion) = Inr [[[0], [0]]] \<and>
   loss_labels_focal labels_criterion torchvision_sigmoid_focal_loss two_slot_logits [[]]
     [([], [])] 1 = Inl RuntimeError"
  by (simp add: loss_labels_focal_def two_slot_logits_def labels_criterion_def
      get_src_permutation_idx_def cat_def cat_target_labels_def index_select_def err_bind_def
      index_put_def full_like_slots_def one_hot_drop_last_def enumerate_eq_zip
      torchvision_sigmoid_focal_loss_def)

subsection \<open>Point sampling\<close>

lemma width_replicate: "0 < H \<Longrightarrow> width (replicate H (replicate W k)) = W"
  by (cases H) (simp_all add: width_def)

lemma pixel_constant:
  assumes "0 \<le> iy" "iy < int H" "0 \<le> ix" "ix < int W"
  shows "pixel (replicate H (replicate W k)) iy ix = k"
proof -
  from assms have "0 < H" by linarith
  with assms show ?thesis by (simp add: pixel_def width_replicate)
qed

lemma pixel_constant_weight:
  assumes "0 \<le> iy" "iy < int H \<or> b = 0" "0 \<le> ix" "ix < int W \<or> a = 0"
  shows "pixel (replicate H (replicate W k)) iy ix * (a * b) = k * (a * b)"
proof (cases "iy < int H \<and> ix < int W")
  case True
  with assms pixel_constant[of iy H ix W k] show ?thesis by simp
next
  case False
  with assms have "a = 0 \<or> b = 0" by blast
  then show ?thesis by auto
qed

lemma floor_interior:
  fixes x :: real
  assumes "0 \<le> x" "x \<le> real n - 1"
  shows "0 \<le> \<lfloor>x\<rfloor>" and "\<lfloor>x\<rfloor> < int n" and "\<lfloor>x\<rfloor> + 1 < int n \<or> x - of_int \<lfloor>x\<rfloor> = 0"
proof -
  from assms(1) show "0 \<le> \<lfloor>x\<rfloor>" by simp
  from assms(2) have "x < real n" by simp
  then show "\<lfloor>x\<rfloor> < int n" by (simp add: floor_less_iff)
  show "\<lfloor>x\<rfloor> + 1 < int n \<or> x - of_int \<lfloor>x\<rfloor> = 0"
  proof (cases "\<lfloor>x\<rfloor> + 1 < int n")
    case True
    then show ?thesis by simp
  next
    case False
    with \<open>\<lfloor>x\<rfloor> < int n\<close> have e: "\<lfloor>x\<rfloor> = int n - 1" by linarith
    have "of_int \<lfloor>x\<rfloor> \<le> x" by (rule of_int_floor_le)
    with e assms(2) have "x = of_int \<lfloor>x\<rfloor>" by simp
    then show ?thesis by simp
  qed
qed

lemma bilinear_constant:
  assumes "0 \<le> unnormalize False W gx" "unnormalize False W gx \<le> real W - 1"
    and "0 \<le> unnormalize False H gy" "unnormalize False H gy \<le> real H - 1"
  shows "bilinear False (replicate H (replicate W k)) (gx, gy) = k"
proof -
  let ?img = "replicate H (replicate W k)"
  let ?ix = "unnormalize False W gx" and ?iy = "unnormalize False H gy"
  define x0 where "x0 = \<lfloor>?ix\<rfloor>"
  define y0 where "y0 = \<lfloor>?iy\<rfloor>"
  define a where "a = ?ix - of_int x0"
  define b where "b = ?iy - of_int y0"
  from assms(3,4) have "0 < H" by (cases H) simp_all
  have x: "0 \<le> x0" "x0 < int W" "x0 + 1 < int W \<or> a = 0"
    using floor_interior[OF assms(1,2)] by (simp_all add: x0_def a_def)
  have y: "0 \<le> y0" "y0 < int H" "y0 + 1 < int H \<or> b = 0"
    using floor_interior[OF assms(3,4)] by (simp_all add: y0_def b_def)
  have w: "width ?img = W" using \<open>0 < H\<close> by (rule width_replicate)
  have p00: "pixel ?img y0 x0 * ((1 - a) * (1 - b)) = k * ((1 - a) * (1 - b))"
    using x(1,2) y(1,2) by (intro pixel_constant_weight) simp_all
  have p01: "pixel ?img y0 (x0 + 1) * (a * (1 - b)) = k * (a * (1 - b))"
    using x y(1,2) by (intro pixel_constant_weight) simp_all
  have p10: "pixel ?img (y0 + 1) x0 * ((1 - a) * b) = k * ((1 - a) * b)"
    using x(1,2) y by (intro pixel_constant_weight) simp_all
  have p11: "pixel ?img (y0 + 1) (x0 + 1) * (a * b) = k * (a * b)"
    using x y by (intro pixel_constant_weight) simp_all
  have "bilinear False ?img (gx, gy) =
      pixel ?img y0 x0 * ((1 - a) * (1 - b)) + pixel ?img y0 (x0 + 1) * (a * (1 - b)) +
      pixel ?img (y0 + 1) x0 * ((1 - a) * b) + pixel ?img (y0 + 1) (x0 + 1) * (a * b)"
    by (simp add: bilinear_def Let_def w x0_def y0_def a_def b_def algebra_simps)
  also have "\<dots> = k * ((1 - a) * (1 - b)) + k * (a * (1 - b)) + k * ((1 - a) * b) + k * (a * b)"
    by (simp only: p00 p01 p10 p11)
  also have "\<dots> = k" by (simp add: algebra_simps)
  finally show ?thesis .
qed

lemma unnormalize_rescale_interior:
  assumes "0 < n" "1 / (2 * real n) \<le> c" "c \<le> 1 - 1 / (2 * real n)"
  shows "0 \<le> unnormalize False n (2 * c - 1) \<and> unnormalize False n (2 * c - 1) \<le> real n - 1"
proof -
  have u: "unnormalize False n (2 * c - 1) = c * real n - 1 / 2"
    by (simp add: unnormalize_def field_simps)
  from assms(1) have n: "0 < real n" by simp
  from assms(2) n have "1 / 2 \<le> c * real n"
    by (simp add: field_simps)
  moreover from assms(3) n have "c * real n \<le> real n - 1 / 2"
    by (simp add: field_simps)
  ultimately show ?thesis unfolding u by simp
qed

lemma grid_sample_constant:
  assumes "0 < H" "0 < W" "length G = N"
  shows "grid_sample (constant_map N C H W k) G False =
     Inr (map (\<lambda>g. replicate C (map (map (bilinear False (replicate H (replicate W k)))) g)) G)"
proof -
  have ne: "\<not> (\<exists>maps \<in> set (constant_map N C H W k). \<exists>img \<in> set maps.
              length img = 0 \<or> width img = 0)"
    using assms(1,2) by (auto simp: constant_map_def width_replicate)
  have len: "length (constant_map N C H W k) = length G"
    using assms(3) by (simp add: constant_map_def)
  have z: "zip (constant_map N C H W k) G =
      map (Pair (replicate C (replicate H (replicate W k)))) G"
    using assms(3) by (simp add: constant_map_def zip_replicate1)
  show ?thesis
    unfolding grid_sample_def using ne len by (simp add: z comp_def)
qed

text \<open>
  Claim C4, as the code has it. \<open>point_sample\<close> is \<open>grid_sample\<close> on the coordinates
  rescaled by \<open>2 c - 1\<close>, with the unit dimension added and removed for a flat list of
  points. On a feature map whose entries all equal \<open>k\<close>, with \<open>align_corners=False\<close>, it
  returns \<open>k\<close> at every coordinate that is at least half a pixel away from the border of
  the unit square; nearer to the border the zero padding enters the blend.
\<close>

theorem point_sample_constant:
  assumes "0 < H" and "0 < W" and "length pc = N"
    and "\<forall>row \<in> set pc. \<forall>p \<in> set row.
           1 / (2 * real W) \<le> fst p \<and> fst p \<le> 1 - 1 / (2 * real W) \<and>
           1 / (2 * real H) \<le> snd p \<and> snd p \<le> 1 - 1 / (2 * real H)"
  shows "point_sample input (Coords3 pc') ac =
           err_bind (grid_sample input (map (map (\<lambda>p. [rescale p])) pc') ac)
             (\<lambda>output. Inr (Out3 (squeeze3 output))) \<and>
         point_sample input (Coords4 pc'') ac =
           err_bind (grid_sample input (map (map (map rescale)) pc'') ac)
             (\<lambda>output. Inr (Out4 output)) \<and>
         point_sample (constant_map N C H W k) (Coords3 pc) False =
           Inr (Out3 (map (\<lambda>row. replicate C (map (\<lambda>p. k) row)) pc))"
proof (intro conjI)
  show "point_sample input (Coords3 pc') ac =
           err_bind (grid_sample input (map (map (\<lambda>p. [rescale p])) pc') ac)
             (\<lambda>output. Inr (Out3 (squeeze3 output)))"
    by (simp add: point_sample_def unsqueeze2_def comp_def)
  show "point_sample input (Coords4 pc'') ac =
           err_bind (grid_sample input (map (map (map rescale)) pc'') ac)
             (\<lambda>output. Inr (Out4 output))"
    by (simp add: point_sample_def)
  let ?img = "replicate H (replicate W k)"
  let ?G = "map (map (map rescale)) (unsqueeze2 pc)"
  have lg: "length ?G = N" using assms(3) by (simp add: unsqueeze2_def)
  have b: "bilinear False ?img (rescale p) = k" if "row \<in> set pc" "p \<in> set row" for row p
  proof -
    from assms(4) that have
      px: "1 / (2 * real W) \<le> fst p" "fst p \<le> 1 - 1 / (2 * real W)"
      and py: "1 / (2 * real H) \<le> snd p" "snd p \<le> 1 - 1 / (2 * real H)"
      by blast+
    from unnormalize_rescale_interior[OF assms(2) px] unnormalize_rescale_interior[OF assms(1) py]
    show ?thesis unfolding rescale_def by (intro bilinear_constant) simp_all
  qed
  have "squeeze3 (map (\<lambda>g. replicate C (map (map (bilinear False ?img)) g)) ?G) =
        map (\<lambda>row. replicate C (map (\<lambda>p. k) row)) pc"
    using b by (simp add: squeeze3_def unsqueeze2_def comp_def cong: map_cong)
  then show "point_sample (constant_map N C H W k) (Coords3 pc) False =
           Inr (Out3 (map (\<lambda>row. replicate C (map (\<lambda>p. k) row)) pc))"
    by (simp add: point_sample_def grid_sample_constant[OF assms(1,2) lg] err_bind_def)
qed

theorem point_sample_constant_counterexample:
  "point_sample (constant_map 1 1 1 1 4) (Coords3 [[(0, 0)]]) False = Inr (Out3 [[[1]]]) \<and>
   (1 :: real) \<noteq> 4"
  by (simp add: constant_map_def point_sample_def grid_sample_def unsqueeze2_def squeeze3_def
      rescale_def bilinear_def unnormalize_def width_def pixel_def err_bind_def Let_def)

theorem point_sample_constant_witness:
  "point_sample (constant_map 1 1 2 2 4) (Coords3 [[(1 / 4, 3 / 4), (1 / 2, 1 / 2)]]) False =
     Inr (Out3 [[[4, 4]]])"
proof -
  have h: "(0 :: nat) < 2" by simp
  have l: "length [[(1 / 4, 3 / 4), (1 / 2, 1 / 2 :: real)]] = (1 :: nat)" by simp
  have c: "\<forall>row \<in> set [[(1 / 4, 3 / 4), (1 / 2, 1 / 2 :: real)]]. \<forall>p \<in> set row.
           1 / (2 * real (2 :: nat)) \<le> fst p \<and> fst p \<le> 1 - 1 / (2 * real (2 :: nat)) \<and>
           1 / (2 * real (2 :: nat)) \<le> snd p \<and> snd p \<le> 1 - 1 / (2 * real (2 :: nat))"
    by simp
  from point_sample_constant[OF h h l c, of "[]" "[]" False "[]" 1 4]
  have "point_sample (constant_map 1 1 2 2 4) (Coords3 [[(1 / 4, 3 / 4), (1 / 2, 1 / 2)]]) False =
     Inr (Out3 (map (\<lambda>row. replicate 1 (map (\<lambda>p. 4) row))
       [[(1 / 4 :: real, 3 / 4 :: real), (1 / 2, 1 / 2)]]))"
    by blast
  then show ?thesis by simp
qed

subsection \<open>Adaptive coordinate generation\<close>

lemma err_all_map_Inr:
  "\<forall>x \<in> set xs. f x = Inr (g x) \<Longrightarrow> err_all (map f xs) = Inr (map g xs)"
  by (induction xs) (simp_all add: err_bind_def)

lemma zip_map_upt:
  "zip xs (map f [0..<length xs]) = map (\<lambda>b. (xs ! b, f b)) [0..<length xs]"
  by (rule nth_equalityI) simp_all

lemma zip_upt_map:
  "zip (map f [0..<n]) (map g [0..<n]) = map (\<lambda>b. (f b, g b)) [0..<n]"
  by (rule nth_equalityI) simp_all

lemma zip_map_upt2:
  "zip (map f [0..<n]) [0..<n] = map (\<lambda>b. (f b, b)) [0..<n]"
  by (rule nth_equalityI) simp_all

lemma take_drop_concat_uniform:
  "\<forall>x \<in> set xss. length x = k \<Longrightarrow> b < length xss \<Longrightarrow>
   take k (drop (b * k) (concat xss)) = xss ! b"
proof (induction xss arbitrary: b)
  case Nil
  then show ?case by simp
next
  case (Cons x xss)
  from Cons.prems have lx: "length x = k" by simp
  show ?case
  proof (cases b)
    case 0
    with lx show ?thesis by simp
  next
    case (Suc b')
    with Cons.prems have "b' < length xss" by simp
    with Cons have "take k (drop (b' * k) (concat xss)) = xss ! b'" by simp
    with Suc lx show ?thesis by simp
  qed
qed

lemma view_rows_concat:
  assumes "length rows = B" "\<forall>row \<in> set rows. length row = k"
  shows "view_rows B k (concat rows) = Inr rows"
proof -
  have l: "length (concat rows) = B * k"
    using concat_uniform_length[OF assms(2)] assms(1) by simp
  have "map (\<lambda>b. take k (drop (b * k) (concat rows))) [0..<B] = rows"
    using assms by (intro nth_equalityI) (simp_all add: take_drop_concat_uniform)
  with l show ?thesis by (simp add: view_rows_def)
qed

lemma sort_key_upt_props:
  fixes key :: "nat \<Rightarrow> real" and n k :: nat
  defines "s \<equiv> sort_key key [0..<n]"
  assumes "k \<le> n"
  shows "length (take k s) = k" and "distinct (take k s)" and "set (take k s) \<subseteq> {..<n}"
    and "\<forall>i \<in> set (take k s). \<forall>j < n. j \<notin> set (take k s) \<longrightarrow> key i \<le> key j"
    and "set s = {..<n}" and "length s = n" and "distinct s"
proof -
  show ls: "length s = n" by (simp add: s_def)
  show ds: "distinct s" by (simp add: s_def)
  show ss: "set s = {..<n}" by (auto simp: s_def)
  from ls assms(2) show "length (take k s) = k" by simp
  from ds show "distinct (take k s)" by (rule distinct_take)
  from ss show "set (take k s) \<subseteq> {..<n}" using set_take_subset by fastforce
  have sorted: "sorted (map key s)" by (simp add: s_def)
  have "s = take k s @ drop k s" by simp
  then have "sorted (map key (take k s) @ map key (drop k s))"
    using sorted by (metis map_append)
  then have le: "\<forall>x \<in> set (take k s). \<forall>y \<in> set (drop k s). key x \<le> key y"
    by (auto simp: sorted_append)
  show "\<forall>i \<in> set (take k s). \<forall>j < n. j \<notin> set (take k s) \<longrightarrow> key i \<le> key j"
  proof (intro ballI allI impI)
    fix i j assume i: "i \<in> set (take k s)" and j: "j < n" "j \<notin> set (take k s)"
    from j(1) ss have "j \<in> set s" by simp
    then have "j \<in> set (take k s) \<union> set (drop k s)" by (metis append_take_drop_id set_append)
    with j(2) have "j \<in> set (drop k s)" by simp
    with le i show "key i \<le> key j" by blast
  qed
qed

lemma sample_counts:
  fixes r f :: real
  assumes "1 \<le> r" "0 \<le> f" "f \<le> 1"
  shows "nat \<lfloor>f * real P\<rfloor> \<le> P" and "P \<le> nat \<lfloor>real P * r\<rfloor>"
proof -
  have "f * real P \<le> real P" using mult_right_mono[OF assms(3), of "real P"] by simp
  then have "\<lfloor>f * real P\<rfloor> \<le> int P" by (simp add: floor_le_iff)
  then show "nat \<lfloor>f * real P\<rfloor> \<le> P" by simp
  have "real P \<le> real P * r" using mult_left_mono[OF assms(1), of "real P"] by simp
  then have "int P \<le> \<lfloor>real P * r\<rfloor>" by (simp add: le_floor_iff)
  then show "P \<le> nat \<lfloor>real P * r\<rfloor>" by simp
qed

lemma point_sample_one_channel:
  assumes "\<forall>maps \<in> set coarse. length maps = 1 \<and> (\<forall>img \<in> set maps. 0 < length img \<and> 0 < width img)"
  shows "point_sample coarse (Coords3 (map (\<lambda>b. map (rand1 b) [0..<ns]) [0..<length coarse])) False =
     Inr (Out3 (map (\<lambda>b. [map (\<lambda>j. bilinear False (coarse ! b ! 0) (rescale (rand1 b j))) [0..<ns]])
                  [0..<length coarse]))"
proof -
  let ?B = "length coarse"
  let ?pc = "map (\<lambda>b. map (rand1 b) [0..<ns]) [0..<?B]"
  let ?G = "map (map (map rescale)) (unsqueeze2 ?pc)"
  have ne: "\<not> (\<exists>maps \<in> set coarse. \<exists>img \<in> set maps. length img = 0 \<or> width img = 0)"
    using assms by fastforce
  have G: "?G = map (\<lambda>b. map (\<lambda>j. [rescale (rand1 b j)]) [0..<ns]) [0..<?B]"
    by (simp add: unsqueeze2_def comp_def)
  have gs: "grid_sample coarse ?G False =
     Inr (map (\<lambda>b. map (\<lambda>img. map (map (bilinear False img)) (map (\<lambda>j. [rescale (rand1 b j)]) [0..<ns]))
                       (coarse ! b)) [0..<?B])"
    unfolding G grid_sample_def using ne by (simp add: zip_map_upt)
  have one: "coarse ! b = [coarse ! b ! 0]" if "b < ?B" for b
  proof -
    from that assms have "length (coarse ! b) = 1" by simp
    then show ?thesis by (cases "coarse ! b") simp_all
  qed
  have sq: "squeeze3 (map (\<lambda>b. map (\<lambda>img. map (map (bilinear False img))
                (map (\<lambda>j. [rescale (rand1 b j)]) [0..<ns])) (coarse ! b)) [0..<?B]) =
        map (\<lambda>b. [map (\<lambda>j. bilinear False (coarse ! b ! 0) (rescale (rand1 b j))) [0..<ns]]) [0..<?B]"
  proof -
    have "map (map hd) (map (\<lambda>img. map (map (bilinear False img))
                (map (\<lambda>j. [rescale (rand1 b j)]) [0..<ns])) (coarse ! b)) =
          [map (\<lambda>j. bilinear False (coarse ! b ! 0) (rescale (rand1 b j))) [0..<ns]]"
      if "b < ?B" for b
      by (subst one[OF that]) (simp add: comp_def)
    then show ?thesis by (simp add: squeeze3_def comp_def)
  qed
  show ?thesis
    by (simp only: point_sample_def point_coords.case gs err_bind_def sum.case sq)
qed

lemma selected_candidates_bound:
  "i \<in> set (selected_candidates rand1 coarse b ns k) \<Longrightarrow> i < ns"
  unfolding selected_candidates_def by (auto dest!: in_set_takeD)

lemma gupc_closed_form:
  fixes r f :: real and P :: nat
  assumes "1 \<le> r" "0 \<le> f" "f \<le> 1"
    and wf: "\<forall>maps \<in> set coarse. length maps = 1 \<and>
               (\<forall>img \<in> set maps. 0 < length img \<and> 0 < width img)"
  defines "ns \<equiv> nat \<lfloor>real P * r\<rfloor>" and "k \<equiv> nat \<lfloor>f * real P\<rfloor>"
  shows "get_uncertain_point_coords_with_randomness rand1 rand2 coarse calculate_uncertainty P r f =
     Inr (map (\<lambda>b. map (rand1 b) (selected_candidates rand1 coarse b ns k) @
                   map (rand2 b) [0..<P - k]) [0..<length coarse])"
proof -
  let ?B = "length coarse"
  let ?sel = "\<lambda>b. selected_candidates rand1 coarse b ns k"
  define pc where "pc = map (\<lambda>b. map (rand1 b) [0..<ns]) [0..<?B]"
  define pl where "pl = map (\<lambda>b. [map (\<lambda>j. bilinear False (coarse ! b ! 0) (rescale (rand1 b j)))
                                  [0..<ns]]) [0..<?B]"
  define u0 where "u0 = map (\<lambda>b. map (candidate_uncertainty rand1 coarse b) [0..<ns]) [0..<?B]"
  define idx where "idx = map ?sel [0..<?B]"
  define chosen where "chosen = map (\<lambda>b. map (rand1 b) (?sel b)) [0..<?B]"
  from sample_counts[OF assms(1-3), of P] have kP: "k \<le> P" and Pns: "P \<le> ns"
    by (simp_all add: k_def ns_def)
  have ps: "point_sample coarse (Coords3 pc) False = Inr (Out3 pl)"
    unfolding pc_def pl_def by (rule point_sample_one_channel[OF wf])
  have cu: "calculate_uncertainty pl = Inr (map (\<lambda>row. [row]) u0)"
    by (simp add: calculate_uncertainty_def pl_def u0_def candidate_uncertainty_def comp_def)
  have sc: "select_channel0 (map (\<lambda>row. [row]) u0) = Inr u0"
    by (auto simp: select_channel0_def comp_def)
  have tk: "err_all (map (\<lambda>row. topk_indices row k) u0) = Inr idx"
  proof -
    have "topk_indices (map (candidate_uncertainty rand1 coarse b) [0..<ns]) k = Inr (?sel b)" for b
      using kP Pns by (simp add: topk_indices_def selected_candidates_def)
    then have "\<forall>b \<in> set [0..<?B].
        (\<lambda>b. topk_indices (map (candidate_uncertainty rand1 coarse b) [0..<ns]) k) b = Inr (?sel b)"
      by blast
    from err_all_map_Inr[OF this] show ?thesis by (simp add: u0_def idx_def comp_def)
  qed
  have sh: "map (\<lambda>(s, row). map (\<lambda>i. i + s) row) (zip (map (\<lambda>b. ns * b) [0..<?B]) idx) =
        map (\<lambda>b. map (\<lambda>i. i + ns * b) (?sel b)) [0..<?B]"
    unfolding idx_def zip_upt_map by simp
  have rows: "\<forall>x \<in> set pc. length x = ns" by (auto simp: pc_def)
  have lpc: "length pc = ?B" by (simp add: pc_def)
  have nth_flat: "concat pc ! (i + ns * b) = rand1 b i" if "b < ?B" "i < ns" for b i
  proof -
    from concat_uniform_nth[OF rows, of b i] that lpc
    have "concat pc ! (b * ns + i) = pc ! b ! i" by simp
    with that show ?thesis by (simp add: pc_def add.commute mult.commute)
  qed
  have inb: "j < length (concat pc)"
    if "j \<in> set (concat (map (\<lambda>b. map (\<lambda>i. i + ns * b) (?sel b)) [0..<?B]))" for j
  proof -
    from that obtain b i where b: "b < ?B" and i: "i \<in> set (?sel b)" and j: "j = i + ns * b"
      by auto
    from i have "i < ns" by (rule selected_candidates_bound)
    then have "i + ns * b < ns * Suc b" by simp
    also from b have "ns * Suc b \<le> ns * ?B" by (intro mult_le_mono2) simp
    finally show ?thesis using concat_uniform_length[OF rows] lpc j by (simp add: mult.commute)
  qed
  have sel_eq: "map (\<lambda>j. concat pc ! j) (concat (map (\<lambda>b. map (\<lambda>i. i + ns * b) (?sel b)) [0..<?B])) =
        concat chosen"
  proof -
    have "map (\<lambda>j. concat pc ! j) (map (\<lambda>i. i + ns * b) (?sel b)) = map (rand1 b) (?sel b)"
      if "b < ?B" for b
      using that nth_flat selected_candidates_bound by (auto simp: comp_def)
    then have "map (\<lambda>b. map (\<lambda>j. concat pc ! j) (map (\<lambda>i. i + ns * b) (?sel b))) [0..<?B] =
          map (\<lambda>b. map (rand1 b) (?sel b)) [0..<?B]"
      unfolding map_eq_conv by simp
    then show ?thesis by (simp only: chosen_def map_concat map_map comp_def)
  qed
  have isel: "index_select (concat pc)
      (concat (map (\<lambda>b. map (\<lambda>i. i + ns * b) (?sel b)) [0..<?B])) = Inr (concat chosen)"
    using inb sel_eq by (simp add: index_select_def)
  have lsel: "length (?sel b) = k" for b
    using kP Pns by (simp add: selected_candidates_def)
  have vr: "view_rows ?B k (concat chosen) = Inr chosen"
    by (rule view_rows_concat) (auto simp: chosen_def lsel)
  have fin: "map (\<lambda>(row, b). row @ map (rand2 b) [0..<P - k]) (zip chosen [0..<?B]) =
        map (\<lambda>b. map (rand1 b) (?sel b) @ map (rand2 b) [0..<P - k]) [0..<?B]"
    unfolding chosen_def zip_map_upt2 by simp
  have zero: "P - k = 0 \<Longrightarrow> chosen =
        map (\<lambda>b. map (rand1 b) (?sel b) @ map (rand2 b) [0..<P - k]) [0..<?B]"
    by (simp add: chosen_def)
  show ?thesis
    unfolding get_uncertain_point_coords_with_randomness_def Let_def
      ns_def[symmetric] k_def[symmetric] pc_def[symmetric]
    using assms(1-3) zero
    by (simp add: ps err_bind_def cu sc tk sh isel vr fin mult.commute[of f])
qed

lemma selected_candidates_props:
  assumes "k \<le> ns"
  shows "length (selected_candidates rand1 coarse b ns k) = k"
    and "distinct (selected_candidates rand1 coarse b ns k)"
    and "set (selected_candidates rand1 coarse b ns k) \<subseteq> {..<ns}"
    and "\<forall>i \<in> set (selected_candidates rand1 coarse b ns k). \<forall>j < ns.
           j \<notin> set (selected_candidates rand1 coarse b ns k) \<longrightarrow>
           candidate_uncertainty rand1 coarse b j \<le> candidate_uncertainty rand1 coarse b i"
    and "k = ns \<Longrightarrow> set (selected_candidates rand1 coarse b ns k) = {..<ns}"
proof -
  let ?key = "\<lambda>i. - (map (candidate_uncertainty rand1 coarse b) [0..<ns] ! i)"
  note p = sort_key_upt_props[OF assms, of ?key]
  from p(1) show "length (selected_candidates rand1 coarse b ns k) = k"
    by (simp add: selected_candidates_def)
  from p(2) show "distinct (selected_candidates rand1 coarse b ns k)"
    by (simp add: selected_candidates_def)
  from p(3) show sub: "set (selected_candidates rand1 coarse b ns k) \<subseteq> {..<ns}"
    by (simp add: selected_candidates_def)
  show "\<forall>i \<in> set (selected_candidates rand1 coarse b ns k). \<forall>j < ns.
           j \<notin> set (selected_candidates rand1 coarse b ns k) \<longrightarrow>
           candidate_uncertainty rand1 coarse b j \<le> candidate_uncertainty rand1 coarse b i"
  proof (intro ballI allI impI)
    fix i j
    assume i: "i \<in> set (selected_candidates rand1 coarse b ns k)" and j: "j < ns"
      and n: "j \<notin> set (selected_candidates rand1 coarse b ns k)"
    from i sub have "i < ns" by auto
    from p(4) i j n have "?key i \<le> ?key j" by (simp add: selected_candidates_def)
    with \<open>i < ns\<close> j show
      "candidate_uncertainty rand1 coarse b j \<le> candidate_uncertainty rand1 coarse b i" by simp
  qed
  show "set (selected_candidates rand1 coarse b ns k) = {..<ns}" if "k = ns"
    using that p(5,6) by (simp add: selected_candidates_def)
qed

text \<open>
  Claim C5. For one-channel coarse logits on a non-empty grid, an oversample ratio
  \<open>r \<ge> 1\<close>, an importance fraction \<open>f\<close> in \<open>[0, 1]\<close> and any outcome of the two random draws,
  the call returns \<open>P\<close> coordinates for each box. The first \<open>int(f P)\<close> of them are
  coordinates of the first draw at pairwise different positions among its \<open>int(P r)\<close>
  candidates, and no candidate left out is more uncertain than a selected one; the
  remaining \<open>P - int(f P)\<close> are the coordinates of the second draw. With \<open>f = 1\<close> and
  \<open>r = 1\<close> the result is the first draw, each of its \<open>P\<close> coordinates taken once.
\<close>

theorem adaptive_point_coords:
  fixes r f :: real and P :: nat
  assumes "1 \<le> r" and "0 \<le> f" and "f \<le> 1"
    and "\<forall>maps \<in> set coarse. length maps = 1 \<and>
           (\<forall>img \<in> set maps. 0 < length img \<and> 0 < width img)"
  shows "\<exists>out.
     get_uncertain_point_coords_with_randomness rand1 rand2 coarse calculate_uncertainty P r f =
       Inr out \<and>
     length out = length coarse \<and>
     (\<forall>b < length coarse.
        length (out ! b) = P \<and>
        (\<exists>sel. length sel = nat \<lfloor>f * real P\<rfloor> \<and> distinct sel \<and>
               set sel \<subseteq> {..<nat \<lfloor>real P * r\<rfloor>} \<and>
               take (nat \<lfloor>f * real P\<rfloor>) (out ! b) = map (rand1 b) sel \<and>
               (\<forall>i \<in> set sel. \<forall>j < nat \<lfloor>real P * r\<rfloor>. j \<notin> set sel \<longrightarrow>
                  candidate_uncertainty rand1 coarse b j \<le> candidate_uncertainty rand1 coarse b i) \<and>
               (f = 1 \<and> r = 1 \<longrightarrow> set sel = {..<P} \<and> out ! b = map (rand1 b) sel)) \<and>
        drop (nat \<lfloor>f * real P\<rfloor>) (out ! b) = map (rand2 b) [0..<P - nat \<lfloor>f * real P\<rfloor>])"
proof -
  define ns where "ns = nat \<lfloor>real P * r\<rfloor>"
  define k where "k = nat \<lfloor>f * real P\<rfloor>"
  let ?sel = "\<lambda>b. selected_candidates rand1 coarse b ns k"
  let ?out = "map (\<lambda>b. map (rand1 b) (?sel b) @ map (rand2 b) [0..<P - k]) [0..<length coarse]"
  from sample_counts[OF assms(1-3), of P] have kP: "k \<le> P" and Pns: "P \<le> ns"
    by (simp_all add: k_def ns_def)
  then have kns: "k \<le> ns" by simp
  note sp = selected_candidates_props[OF kns, of rand1 coarse]
  have eq: "get_uncertain_point_coords_with_randomness rand1 rand2 coarse calculate_uncertainty
      P r f = Inr ?out"
    unfolding ns_def k_def by (rule gupc_closed_form[OF assms])
  have row: "length (?out ! b) = P \<and>
        (\<exists>sel. length sel = k \<and> distinct sel \<and> set sel \<subseteq> {..<ns} \<and>
               take k (?out ! b) = map (rand1 b) sel \<and>
               (\<forall>i \<in> set sel. \<forall>j < ns. j \<notin> set sel \<longrightarrow>
                  candidate_uncertainty rand1 coarse b j \<le> candidate_uncertainty rand1 coarse b i) \<and>
               (f = 1 \<and> r = 1 \<longrightarrow> set sel = {..<P} \<and> ?out ! b = map (rand1 b) sel)) \<and>
        drop k (?out ! b) = map (rand2 b) [0..<P - k]"
    if b: "b < length coarse" for b
  proof -
    have o: "?out ! b = map (rand1 b) (?sel b) @ map (rand2 b) [0..<P - k]"
      using b by simp
    have l: "length (?out ! b) = P" using kP by (simp add: o sp(1))
    have t: "take k (?out ! b) = map (rand1 b) (?sel b)" by (simp add: o sp(1))
    have d: "drop k (?out ! b) = map (rand2 b) [0..<P - k]" by (simp add: o sp(1))
    have full: "set (?sel b) = {..<P} \<and> ?out ! b = map (rand1 b) (?sel b)" if "f = 1" "r = 1"
    proof -
      from that have "k = P" "ns = P" by (simp_all add: k_def ns_def)
      with sp(5)[of b] o show ?thesis by simp
    qed
    from l t d full sp(1-4)[of b] show ?thesis by blast
  qed
  show ?thesis
    unfolding ns_def[symmetric] k_def[symmetric]
    by (intro exI[of _ ?out] conjI) (use eq row in simp_all)
qed

theorem adaptive_point_coords_witness:
  "(\<exists>out. get_uncertain_point_coords_with_randomness example_rand1 example_rand2 example_coarse
       calculate_uncertainty 2 (3 / 2) (1 / 2) = Inr out \<and>
     length out = 1 \<and> length (out ! 0) = 2 \<and> drop 1 (out ! 0) = [(1 / 8, 1 / 8)]) \<and>
   (\<exists>out sel. get_uncertain_point_coords_with_randomness example_rand1 example_rand2
       example_coarse calculate_uncertainty 2 1 1 = Inr out \<and>
     set sel = {..<2} \<and> out ! 0 = map (example_rand1 0) sel)"
proof -
  have wf: "\<forall>maps \<in> set example_coarse. length maps = 1 \<and>
           (\<forall>img \<in> set maps. 0 < length img \<and> 0 < width img)"
    by (simp add: example_coarse_def width_def)
  have r1: "(1 :: real) \<le> 3 / 2" and f0: "(0 :: real) \<le> 1 / 2" and f1: "(1 / 2 :: real) \<le> 1"
    by simp_all
  have r2: "(1 :: real) \<le> 1" and g0: "(0 :: real) \<le> 1" by simp_all
  have l: "length example_coarse = 1" by (simp add: example_coarse_def)
  have k1: "nat \<lfloor>1 / 2 * real (2 :: nat)\<rfloor> = 1" by simp
  have k2: "nat \<lfloor>1 * real (2 :: nat)\<rfloor> = 2" by simp
  from adaptive_point_coords[OF r1 f0 f1 wf, of example_rand1 example_rand2 2]
  obtain out where
    a: "get_uncertain_point_coords_with_randomness example_rand1 example_rand2 example_coarse
       calculate_uncertainty 2 (3 / 2) (1 / 2) = Inr out"
    and b: "length out = 1"
    and c: "length (out ! 0) = 2"
    and d: "drop 1 (out ! 0) = map (example_rand2 0) [0..<2 - 1]"
    unfolding l k1 by auto
  from d have d': "drop 1 (out ! 0) = [(1 / 8, 1 / 8)]" by (simp add: example_rand2_def)
  from adaptive_point_coords[OF r2 g0 r2 wf, of example_rand1 example_rand2 2]
  obtain out' sel where
    a': "get_uncertain_point_coords_with_randomness example_rand1 example_rand2 example_coarse
       calculate_uncertainty 2 1 1 = Inr out'"
    and s: "set sel = {..<2}" and o: "out' ! 0 = map (example_rand1 0) sel"
    unfolding l k2 by auto
  from a b c d' a' s o show ?thesis by blast
qed

subsection \<open>Entries of the result of \<open>forward\<close>\<close>


























end
